theory Spec2Isabelle
  imports Main
begin

section \<open>JavaScript values\<close>

text \<open>
  The decorators library wraps arbitrary JavaScript functions, so the model needs the
  values such functions take and return. Numbers are restricted to integers (the
  library never does arithmetic on arguments; it only stringifies and compares them),
  objects are plain records of properties, and a pending promise is an opaque value.
  Functions, symbols and objects with their own \<^verbatim>\<open>toString\<close> are not represented.
\<close>

datatype jsval = Undefined | Null | Bool bool | Num int | Str string
  | Arr "jsval list" | Obj "(string \<times> jsval) list" | Promise

text \<open>\<^verbatim>\<open>typeof v\<close>.\<close>

fun typeof :: "jsval \<Rightarrow> string" where
  "typeof Undefined = ''undefined''"
| "typeof Null = ''object''"
| "typeof (Bool b) = ''boolean''"
| "typeof (Num n) = ''number''"
| "typeof (Str s) = ''string''"
| "typeof (Arr xs) = ''object''"
| "typeof (Obj kvs) = ''object''"
| "typeof Promise = ''object''"

text \<open>\<^verbatim>\<open>v == null\<close> holds for \<^verbatim>\<open>null\<close> and \<^verbatim>\<open>undefined\<close> only.\<close>

definition eq_null :: "jsval \<Rightarrow> bool" where
  "eq_null v = (v = Undefined \<or> v = Null)"

text \<open>Truthiness, as \<^verbatim>\<open>if (v)\<close> and \<^verbatim>\<open>!v\<close> read a value.\<close>

fun truthy :: "jsval \<Rightarrow> bool" where
  "truthy Undefined = False"
| "truthy Null = False"
| "truthy (Bool b) = b"
| "truthy (Num n) = (n \<noteq> 0)"
| "truthy (Str s) = (s \<noteq> [])"
| "truthy (Arr xs) = True"
| "truthy (Obj kvs) = True"
| "truthy Promise = True"

text \<open>
  Decimal rendering of an integer, as a template literal or \<^verbatim>\<open>String\<close> prints a number
  whose magnitude is below \<open>10\<^sup>2\<^sup>1\<close>; from there on JavaScript prints in exponent form,
  which is not modelled.
\<close>

fun digits :: "nat \<Rightarrow> string" where
  "digits n = (if n < 10 then [''0123456789'' ! n]
               else digits (n div 10) @ [''0123456789'' ! (n mod 10)])"

declare digits.simps [simp del]

definition show_int :: "int \<Rightarrow> string" where
  "show_int i = (if i < 0 then CHR ''-'' # digits (nat (- i)) else digits (nat i))"

definition show_nat :: "nat \<Rightarrow> string" where
  "show_nat n = digits n"

fun intercalate :: "string \<Rightarrow> string list \<Rightarrow> string" where
  "intercalate sep [] = []"
| "intercalate sep [x] = x"
| "intercalate sep (x # y # ys) = x @ sep @ intercalate sep (y # ys)"

text \<open>
  \<^verbatim>\<open>String(v)\<close>. An array prints as its elements joined by commas, and
  \<^verbatim>\<open>Array.prototype.join\<close> prints \<^verbatim>\<open>null\<close> and \<^verbatim>\<open>undefined\<close> elements as the empty
  string (\<open>elemString\<close>).
\<close>

fun ToString :: "jsval \<Rightarrow> string" and elemString :: "jsval \<Rightarrow> string" where
  "ToString Undefined = ''undefined''"
| "ToString Null = ''null''"
| "ToString (Bool b) = (if b then ''true'' else ''false'')"
| "ToString (Num n) = show_int n"
| "ToString (Str s) = s"
| "ToString (Arr xs) = intercalate '','' (map elemString xs)"
| "ToString (Obj kvs) = ''[object Object]''"
| "ToString Promise = ''[object Promise]''"
| "elemString x = (if x = Undefined \<or> x = Null then [] else ToString x)"

text \<open>\<^verbatim>\<open>args.join(sep)\<close>.\<close>

definition join :: "jsval list \<Rightarrow> string \<Rightarrow> string" where
  "join args sep = intercalate sep (map elemString args)"

text \<open>
  \<^verbatim>\<open>v + s\<close> and \<^verbatim>\<open>s + v\<close> for a string \<open>s\<close>: one operand is a string, so \<^verbatim>\<open>+\<close>
  concatenates the string forms of both operands.
\<close>

definition plus_string :: "jsval \<Rightarrow> string \<Rightarrow> string" where
  "plus_string v s = ToString v @ s"

definition string_plus :: "string \<Rightarrow> jsval \<Rightarrow> string" where
  "string_plus s v = s @ ToString v"

text \<open>\<^verbatim>\<open>args[i]\<close>: reading past the end of an array gives \<^verbatim>\<open>undefined\<close>.\<close>

definition index :: "jsval list \<Rightarrow> nat \<Rightarrow> jsval" where
  "index args i = (if i < length args then args ! i else Undefined)"

section \<open>Key builder\<close>

text \<open>
  \<^verbatim>\<open>
  export const fastKey = (args) => {
      if (!args || args.length === 0) return '';
      if (args.length === 1) return String(args[0]);
      if (args.length === 2) return args[0] + '|' + args[1];
      return args.join('|');
  };
  \<close>
  \<open>None\<close> stands for a falsy \<^verbatim>\<open>args\<close>.
\<close>

fun fastKey :: "jsval list option \<Rightarrow> string" where
  "fastKey None = []"
| "fastKey (Some args) =
     (if length args = 0 then []
      else if length args = 1 then ToString (index args 0)
      else if length args = 2 then string_plus (plus_string (index args 0) ''|'') (index args 1)
      else join args ''|'')"

section \<open>Bounded cache\<close>

text \<open>
  A JavaScript \<^verbatim>\<open>Map\<close> iterates in insertion order, and the cache relies on that order,
  so the map is an association list, oldest insertion first.
\<close>

type_synonym ('k, 'v) jsmap = "('k \<times> 'v) list"

definition Map_has :: "('k, 'v) jsmap \<Rightarrow> 'k \<Rightarrow> bool" where
  "Map_has m k = (k \<in> set (map fst m))"

definition Map_get :: "('k, jsval) jsmap \<Rightarrow> 'k \<Rightarrow> jsval" where
  "Map_get m k = (case map_of m k of None \<Rightarrow> Undefined | Some v \<Rightarrow> v)"

definition Map_delete :: "('k, 'v) jsmap \<Rightarrow> 'k \<Rightarrow> ('k, 'v) jsmap" where
  "Map_delete m k = filter (\<lambda>p. fst p \<noteq> k) m"

text \<open>\<^verbatim>\<open>Map.set\<close> keeps the position of a key that is present and appends a new one.\<close>

fun Map_set :: "('k, 'v) jsmap \<Rightarrow> 'k \<Rightarrow> 'v \<Rightarrow> ('k, 'v) jsmap" where
  "Map_set [] k v = [(k, v)]"
| "Map_set (p # ps) k v = (if fst p = k then (k, v) # ps else p # Map_set ps k v)"

definition Map_size :: "('k, 'v) jsmap \<Rightarrow> int" where
  "Map_size m = int (length m)"

text \<open>
  \<^verbatim>\<open>
  export class UniversalLRU {
      constructor(maxSize = 128) {
          this.maxSize = maxSize;
          this.cache = new Map();
          this.hits = 0;
          this.misses = 0;
      }
  \<close>
  The capacity is an integer, of either sign; keys are compared by equality.
\<close>

record 'k UniversalLRU =
  maxSize :: int
  cache :: "('k, jsval) jsmap"
  hits :: nat
  misses :: nat

definition UniversalLRU_new :: "int option \<Rightarrow> 'k UniversalLRU" where
  "UniversalLRU_new maxSize_arg =
     \<lparr>maxSize = (case maxSize_arg of None \<Rightarrow> 128 | Some n \<Rightarrow> n),
      cache = [], hits = 0, misses = 0\<rparr>"

text \<open>
  \<^verbatim>\<open>
      get(key) {
          if (this.cache.has(key)) {
              const value = this.cache.get(key);
              this.cache.delete(key);
              this.cache.set(key, value);
              this.hits++;
              return value;
          }
          this.misses++;
          return undefined;
      }
  \<close>
  The model returns the value together with the updated cache.
\<close>

definition UniversalLRU_get :: "'k UniversalLRU \<Rightarrow> 'k \<Rightarrow> jsval \<times> 'k UniversalLRU" where
  "UniversalLRU_get this key =
     (if Map_has (cache this) key then
        (let val = Map_get (cache this) key;
             cache1 = Map_delete (cache this) key;
             cache2 = Map_set cache1 key val
         in (val, this\<lparr>cache := cache2, hits := hits this + 1\<rparr>))
      else (Undefined, this\<lparr>misses := misses this + 1\<rparr>))"

text \<open>
  \<^verbatim>\<open>
      set(key, value) {
          if (this.cache.has(key)) {
              this.cache.delete(key);
          } else if (this.cache.size >= this.maxSize) {
              const firstKey = this.cache.keys().next().value;
              this.cache.delete(firstKey);
          }
          this.cache.set(key, value);
      }
  \<close>
  On an empty map \<^verbatim>\<open>keys().next().value\<close> is \<^verbatim>\<open>undefined\<close> and deleting it removes
  nothing.
\<close>

definition UniversalLRU_set :: "'k UniversalLRU \<Rightarrow> 'k \<Rightarrow> jsval \<Rightarrow> 'k UniversalLRU" where
  "UniversalLRU_set this key val =
     (let cache1 =
            (if Map_has (cache this) key then Map_delete (cache this) key
             else if Map_size (cache this) \<ge> maxSize this then
               (case cache this of
                  [] \<Rightarrow> cache this
                | (firstKey, _) # _ \<Rightarrow> Map_delete (cache this) firstKey)
             else cache this)
      in this\<lparr>cache := Map_set cache1 key val\<rparr>)"

text \<open>
  \<^verbatim>\<open>info()\<close> without its \<^verbatim>\<open>ratio\<close> field (a floating-point percentage), and
  \<^verbatim>\<open>clear()\<close>.
\<close>

record CacheInfo =
  info_hits :: nat
  info_misses :: nat
  info_maxsize :: int
  info_currsize :: int

definition UniversalLRU_info :: "'k UniversalLRU \<Rightarrow> CacheInfo" where
  "UniversalLRU_info this =
     \<lparr>info_hits = hits this, info_misses = misses this,
      info_maxsize = maxSize this, info_currsize = Map_size (cache this)\<rparr>"

definition UniversalLRU_clear :: "'k UniversalLRU \<Rightarrow> 'k UniversalLRU" where
  "UniversalLRU_clear this = this\<lparr>cache := [], hits := 0, misses := 0\<rparr>"

text \<open>Sequences of cache operations, run in order on one cache.\<close>

datatype 'k cache_op = Get 'k | Set 'k jsval

fun apply_op :: "'k UniversalLRU \<Rightarrow> 'k cache_op \<Rightarrow> 'k UniversalLRU" where
  "apply_op c (Get k) = snd (UniversalLRU_get c k)"
| "apply_op c (Set k v) = UniversalLRU_set c k v"

definition run_ops :: "'k UniversalLRU \<Rightarrow> 'k cache_op list \<Rightarrow> 'k UniversalLRU" where
  "run_ops c ops = foldl apply_op c ops"

text \<open>
  Recency, stated without looking at the order of the map: every operation has a
  position in the history, and an operation touches its key when it is a \<^verbatim>\<open>set\<close> or a
  \<^verbatim>\<open>get\<close> that hits. \<open>last_touch\<close> records for every key the position of the last
  operation that touched it.
\<close>

fun touches :: "'k UniversalLRU \<Rightarrow> 'k cache_op \<Rightarrow> bool" where
  "touches c (Get k) = Map_has (cache c) k"
| "touches c (Set k v) = True"

fun op_key :: "'k cache_op \<Rightarrow> 'k" where
  "op_key (Get k) = k"
| "op_key (Set k v) = k"

record 'k history =
  lru :: "'k UniversalLRU"
  last_touch :: "'k \<Rightarrow> nat"
  clock :: nat

definition step :: "'k history \<Rightarrow> 'k cache_op \<Rightarrow> 'k history" where
  "step h x =
     \<lparr>lru = apply_op (lru h) x,
      last_touch = (if touches (lru h) x then (last_touch h)(op_key x := clock h)
                    else last_touch h),
      clock = Suc (clock h)\<rparr>"

definition history_start :: "int \<Rightarrow> 'k history" where
  "history_start n = \<lparr>lru = UniversalLRU_new (Some n), last_touch = (\<lambda>k. 0), clock = 0\<rparr>"

definition replay :: "int \<Rightarrow> 'k cache_op list \<Rightarrow> 'k history" where
  "replay n ops = foldl step (history_start n) ops"

definition keys :: "'k UniversalLRU \<Rightarrow> 'k list" where
  "keys c = map fst (cache c)"

section \<open>Errors and wrapped functions\<close>

text \<open>
  The error classes of the library and the built-in ones it meets. \<open>UserError\<close> stands
  for a class a caller derives from \<^verbatim>\<open>Error\<close>.
\<close>

datatype errclass = Error | TypeError | UserError string
  | DecoratorError | ValidationError | RateLimitError | TimeoutError | RetryError

text \<open>
  What a \<^verbatim>\<open>throw\<close> carries: any value, or an error object with the properties the
  constructors below assign. A property that no constructor assigned reads
  \<^verbatim>\<open>undefined\<close>, here \<open>None\<close>.
\<close>

datatype thrown = Thrown jsval
  | ErrorObj (cls: errclass) (message: string) (decoratorName: "string option")
      (originalError: "thrown option") (fieldName: "string option")
      (retryAfter: "int option") (timeLimit: "int option") (attempts: "int option")

text \<open>\<^verbatim>\<open>error instanceof ErrorClass\<close>, along the \<^verbatim>\<open>extends\<close> chain of the classes.\<close>

fun extends :: "errclass \<Rightarrow> errclass \<Rightarrow> bool" where
  "extends c Error = True"
| "extends c DecoratorError =
     (c = DecoratorError \<or> c = ValidationError \<or> c = RateLimitError
      \<or> c = TimeoutError \<or> c = RetryError)"
| "extends c d = (c = d)"

fun instanceof :: "thrown \<Rightarrow> errclass \<Rightarrow> bool" where
  "instanceof (Thrown v) d = False"
| "instanceof (ErrorObj c m dn oe fld ra lim att) d = extends c d"

fun thrown_truthy :: "thrown \<Rightarrow> bool" where
  "thrown_truthy (Thrown v) = truthy v"
| "thrown_truthy (ErrorObj c m dn oe fld ra lim att) = True"

text \<open>
  \<^verbatim>\<open>
  export class DecoratorError extends Error {
      constructor(message, decoratorName, originalError) {
          super(message);
          this.name = 'DecoratorError';
          this.decoratorName = decoratorName;
          this.originalError = originalError;
      }
  }
  export class ValidationError extends DecoratorError {
      constructor(message, fieldName) {
          super(message, 'validate');
          this.name = 'ValidationError';
          this.fieldName = fieldName;
      }
  }
  export class RateLimitError extends DecoratorError {
      constructor(message, retryAfter) {
          super(message, 'rateLimit');
          this.name = 'RateLimitError';
          this.retryAfter = retryAfter;
      }
  }
  export class RetryError extends DecoratorError {
      constructor(message, attempts) {
          super(message, 'asyncRetry');
          this.name = 'RetryError';
          this.attempts = attempts;
      }
  }
  \<close>
  The subclasses call \<^verbatim>\<open>super\<close> with two arguments, so \<^verbatim>\<open>originalError\<close> is
  \<^verbatim>\<open>undefined\<close> in each of them. \<open>new_RetryError\<close> takes the third actual argument
  that \<^verbatim>\<open>async_retry\<close> passes: the constructor declares two parameters and never reads
  it.
\<close>

definition new_Error :: "string \<Rightarrow> thrown" where
  "new_Error msg = ErrorObj Error msg None None None None None None"

definition new_TypeError :: "string \<Rightarrow> thrown" where
  "new_TypeError msg = ErrorObj TypeError msg None None None None None None"

definition new_DecoratorError :: "string \<Rightarrow> string \<Rightarrow> thrown option \<Rightarrow> thrown" where
  "new_DecoratorError msg name orig =
     ErrorObj DecoratorError msg (Some name) orig None None None None"

definition new_ValidationError :: "string \<Rightarrow> string \<Rightarrow> thrown" where
  "new_ValidationError msg field =
     ErrorObj ValidationError msg (Some ''validate'') None (Some field) None None None"

definition new_RateLimitError :: "string \<Rightarrow> int \<Rightarrow> thrown" where
  "new_RateLimitError msg retry_after =
     ErrorObj RateLimitError msg (Some ''rateLimit'') None None (Some retry_after) None None"

definition new_RetryError :: "string \<Rightarrow> int \<Rightarrow> thrown \<Rightarrow> thrown" where
  "new_RetryError msg n unread =
     ErrorObj RetryError msg (Some ''asyncRetry'') None None None None (Some n)"

text \<open>
  A JavaScript function, seen from a wrapper: it takes the argument list and the state
  it closes over, and returns or throws, leaving a new state. For an \<^verbatim>\<open>async\<close>
  function the result is the settlement of its promise.
\<close>

type_synonym result = "thrown + jsval"
type_synonym 's jsfun = "jsval list \<Rightarrow> 's \<Rightarrow> result \<times> 's"

text \<open>A base function instrumented with a counter of its invocations.\<close>

definition counting :: "'s jsfun \<Rightarrow> (nat \<times> 's) jsfun" where
  "counting f args cs =
     (case f args (snd cs) of (r, s') \<Rightarrow> (r, (Suc (fst cs), s')))"

text \<open>The state after \<open>n\<close> invocations with the same arguments, and the result of the next one.\<close>

fun nth_state :: "'s jsfun \<Rightarrow> jsval list \<Rightarrow> 's \<Rightarrow> nat \<Rightarrow> 's" where
  "nth_state f args s 0 = s"
| "nth_state f args s (Suc n) = snd (f args (nth_state f args s n))"

definition nth_result :: "'s jsfun \<Rightarrow> jsval list \<Rightarrow> 's \<Rightarrow> nat \<Rightarrow> result" where
  "nth_result f args s n = fst (f args (nth_state f args s n))"

section \<open>super\_cache\<close>

text \<open>
  \<^verbatim>\<open>
  (originalMethod, propertyKey, type = 'balanced', maxsize = 128) => {
      const sizes = { light: 32, balanced: maxsize, fast: 256 };
      const cache = new UniversalLRU(sizes[type] || maxsize);
  \<close>
  The type is taken not to name a property that \<^verbatim>\<open>sizes\<close> inherits from
  \<^verbatim>\<open>Object.prototype\<close> (such as \<^verbatim>\<open>constructor\<close>), for which \<^verbatim>\<open>sizes[type]\<close> is a function
  and not a size.
\<close>

definition super_cache_size :: "string option \<Rightarrow> int option \<Rightarrow> int" where
  "super_cache_size type_arg maxsize_arg =
     (let type = (case type_arg of None \<Rightarrow> ''balanced'' | Some t \<Rightarrow> t);
          maxsize = (case maxsize_arg of None \<Rightarrow> 128 | Some m \<Rightarrow> m);
          sizes_type = (if type = ''light'' then Some 32
                        else if type = ''balanced'' then Some maxsize
                        else if type = ''fast'' then Some 256
                        else None)
      in case sizes_type of
           None \<Rightarrow> maxsize
         | Some n \<Rightarrow> if n \<noteq> 0 then n else maxsize)"

definition super_cache_new :: "string option \<Rightarrow> int option \<Rightarrow> string UniversalLRU" where
  "super_cache_new type_arg maxsize_arg =
     UniversalLRU_new (Some (super_cache_size type_arg maxsize_arg))"

text \<open>
  \<^verbatim>\<open>
      function cachedMethod(...args) {
          const cacheKey = fastKey(args);
          let result = cache.get(cacheKey);
          if (result === undefined) {
              result = originalMethod.apply(this, args);
              cache.set(cacheKey, result);
          }
          return result;
      }
  \<close>
  The cache is the private state of the wrapper, paired with the state of the wrapped
  function. When the wrapped function throws, nothing is stored.
\<close>

definition cachedMethod :: "'s jsfun \<Rightarrow> (string UniversalLRU \<times> 's) jsfun" where
  "cachedMethod originalMethod args st =
     (let cacheKey = fastKey (Some args);
          (result, cache1) = UniversalLRU_get (fst st) cacheKey
      in if result = Undefined then
           (case originalMethod args (snd st) of
              (Inl e, s') \<Rightarrow> (Inl e, (cache1, s'))
            | (Inr v, s') \<Rightarrow> (Inr v, (UniversalLRU_set cache1 cacheKey v, s')))
         else (Inr result, (cache1, snd st)))"

definition cache_info :: "string UniversalLRU \<times> 's \<Rightarrow> CacheInfo" where
  "cache_info st = UniversalLRU_info (fst st)"

definition cache_clear :: "string UniversalLRU \<times> 's \<Rightarrow> string UniversalLRU \<times> 's" where
  "cache_clear st = (UniversalLRU_clear (fst st), snd st)"

section \<open>repeat\<close>

text \<open>
  \<^verbatim>\<open>
  (originalMethod, propertyKey, times = 3, delay = 0) => {
      return function repeatedMethod(...args) {
          let lastError;
          for (let i = 0; i < times; i++) {
              try {
                  return originalMethod.apply(this, args);
              } catch (error) {
                  lastError = error;
                  if (i < times - 1 && delay > 0) {
                      const start = Date.now();
                      while (Date.now() - start < delay) {}
                  }
              }
          }
          throw lastError;
      };
  }
  \<close>
  The busy wait reads the clock only and changes no state of the model.
  \<^verbatim>\<open>lastError\<close> starts \<^verbatim>\<open>undefined\<close>, and that is what is thrown when the loop body
  never runs.
\<close>

function repeat_loop ::
  "int \<Rightarrow> 's jsfun \<Rightarrow> jsval list \<Rightarrow> nat \<Rightarrow> thrown \<Rightarrow> 's \<Rightarrow> result \<times> 's" where
  "repeat_loop ntimes originalMethod args i lastError s =
     (if int i < ntimes then
        (case originalMethod args s of
           (Inr v, s') \<Rightarrow> (Inr v, s')
         | (Inl error, s') \<Rightarrow> repeat_loop ntimes originalMethod args (Suc i) error s')
      else (Inl lastError, s))"
  by pat_completeness auto
termination
  by (relation "measure (\<lambda>(ntimes, f, args, i, e, s). nat (ntimes - int i))") auto

declare repeat_loop.simps [simp del]

definition repeatedMethod :: "int option \<Rightarrow> int option \<Rightarrow> 's jsfun \<Rightarrow> 's jsfun" where
  "repeatedMethod times_arg delay_arg originalMethod args s =
     (let ntimes = (case times_arg of None \<Rightarrow> 3 | Some t \<Rightarrow> t)
      in repeat_loop ntimes originalMethod args 0 (Thrown Undefined) s)"

section \<open>async\_retry\<close>

text \<open>
  \<^verbatim>\<open>
  (originalMethod, propertyKey, options = {}) => {
      const config = { attempts: 3, delay: 1000, exponentialBackoff: false, retryOn: [], ...options };
      return async function retryMethod(...args) {
          let lastError;
          for (let i = 0; i < config.attempts; i++) {
              try {
                  return await originalMethod.apply(this, args);
              } catch (error) {
                  lastError = error;
                  if (config.retryOn.length > 0) {
                      const shouldRetry = config.retryOn.some(ErrorClass => error instanceof ErrorClass);
                      if (!shouldRetry) throw error;
                  }
                  if (i < config.attempts - 1) {
                      const delay = config.exponentialBackoff
                          ? config.delay * Math.pow(2, i)
                          : config.delay;
                      await new Promise(resolve => setTimeout(resolve, delay));
                  }
              }
          }
          throw new RetryError(`Method ${propertyKey} failed after ${config.attempts} attempts`, config.attempts, lastError);
      };
  }
  \<close>
  The result is the settlement of the promise that \<^verbatim>\<open>retryMethod\<close> returns. Waiting
  for the timer changes no state of the model; \<open>retry_delay\<close> is the time waited after
  attempt \<open>i\<close>.
\<close>

record retry_config =
  retry_attempts :: int
  retry_delay_ms :: int
  exponentialBackoff :: bool
  retryOn :: "errclass list"

definition retry_config_default :: retry_config where
  "retry_config_default =
     \<lparr>retry_attempts = 3, retry_delay_ms = 1000, exponentialBackoff = False, retryOn = []\<rparr>"

definition retry_delay :: "retry_config \<Rightarrow> nat \<Rightarrow> int" where
  "retry_delay config i =
     (if exponentialBackoff config then retry_delay_ms config * 2 ^ i
      else retry_delay_ms config)"

function retry_loop ::
  "retry_config \<Rightarrow> string \<Rightarrow> 's jsfun \<Rightarrow> jsval list \<Rightarrow> nat \<Rightarrow> thrown \<Rightarrow> 's \<Rightarrow> result \<times> 's"
  where
  "retry_loop config propertyKey originalMethod args i lastError s =
     (if int i < retry_attempts config then
        (case originalMethod args s of
           (Inr v, s') \<Rightarrow> (Inr v, s')
         | (Inl error, s') \<Rightarrow>
             if length (retryOn config) > 0
                \<and> \<not> list_ex (\<lambda>ErrorClass. instanceof error ErrorClass) (retryOn config)
             then (Inl error, s')
             else retry_loop config propertyKey originalMethod args (Suc i) error s')
      else
        (Inl (new_RetryError
               (''Method '' @ propertyKey @ '' failed after ''
                 @ show_int (retry_attempts config) @ '' attempts'')
               (retry_attempts config) lastError), s))"
  by pat_completeness auto
termination
  by (relation "measure (\<lambda>(c, p, f, args, i, e, s). nat (retry_attempts c - int i))") auto

declare retry_loop.simps [simp del]

definition retryMethod :: "retry_config \<Rightarrow> string \<Rightarrow> 's jsfun \<Rightarrow> 's jsfun" where
  "retryMethod config propertyKey originalMethod args s =
     retry_loop config propertyKey originalMethod args 0 (Thrown Undefined) s"

section \<open>validate\<close>

text \<open>
  A validation rule. \<open>rule_type\<close> is \<open>None\<close> when the rule has no \<^verbatim>\<open>type\<close>;
  \<open>rule_pattern\<close> is the \<^verbatim>\<open>test\<close> of a regular expression and \<open>rule_validate\<close> the
  truth value of a custom predicate, both taken as pure.
\<close>

record rule =
  rule_type :: "string option"
  rule_required :: bool
  rule_min :: "int option"
  rule_max :: "int option"
  rule_pattern :: "(string \<Rightarrow> bool) option"
  rule_validate :: "(jsval \<Rightarrow> bool) option"
  rule_message :: "string option"

record validate_config =
  params :: "rule option list"
  return_rule :: "rule option"
  throwOnError :: bool
  logErrors :: bool

definition orelse :: "'a option \<Rightarrow> 'a option \<Rightarrow> 'a option" where
  "orelse a b = (case a of Some e \<Rightarrow> Some e | None \<Rightarrow> b)"

text \<open>\<^verbatim>\<open>rule.type && ...\<close> and \<^verbatim>\<open>rule.type === t\<close>.\<close>

definition type_truthy :: "rule \<Rightarrow> bool" where
  "type_truthy r = (case rule_type r of None \<Rightarrow> False | Some t \<Rightarrow> t \<noteq> [])"

definition type_is :: "rule \<Rightarrow> string \<Rightarrow> bool" where
  "type_is r t = (rule_type r = Some t)"

text \<open>
  \<^verbatim>\<open>value.length\<close>: reading a property of \<^verbatim>\<open>undefined\<close> or \<^verbatim>\<open>null\<close> throws a
  \<^verbatim>\<open>TypeError\<close>. \<^verbatim>\<open>x < m\<close> against an integer: \<^verbatim>\<open>null\<close> converts to 0 and
  \<^verbatim>\<open>undefined\<close> to \<^verbatim>\<open>NaN\<close>, which is below nothing. Where these two are used the type
  check has passed, so the value is a string (for \<open>value_length\<close>), a number (for
  \<open>less_than\<close>), \<^verbatim>\<open>null\<close> or \<^verbatim>\<open>undefined\<close>.
\<close>

definition value_length :: "jsval \<Rightarrow> thrown + jsval" where
  "value_length v =
     (case v of
        Undefined \<Rightarrow> Inl (new_TypeError ''Cannot read properties of undefined (reading 'length')'')
      | Null \<Rightarrow> Inl (new_TypeError ''Cannot read properties of null (reading 'length')'')
      | Str s \<Rightarrow> Inr (Num (int (length s)))
      | Arr xs \<Rightarrow> Inr (Num (int (length xs)))
      | Obj kvs \<Rightarrow> Inr (Map_get kvs ''length'')
      | _ \<Rightarrow> Inr Undefined)"

definition less_than :: "jsval \<Rightarrow> int \<Rightarrow> bool" where
  "less_than v m =
     (case v of
        Num n \<Rightarrow> n < m
      | Null \<Rightarrow> 0 < m
      | Bool b \<Rightarrow> (if b then 1 else 0) < m
      | _ \<Rightarrow> False)"

definition greater_than :: "jsval \<Rightarrow> int \<Rightarrow> bool" where
  "greater_than v m =
     (case v of
        Num n \<Rightarrow> n > m
      | Null \<Rightarrow> 0 > m
      | Bool b \<Rightarrow> (if b then 1 else 0) > m
      | _ \<Rightarrow> False)"

text \<open>
  The checks of one positional rule, each giving the error it throws, if any.
  \<^verbatim>\<open>
  if (rule.required && value == null) {
      throw new ValidationError(`Parameter ${index} is required`, `param${index}`);
  }
  if (rule.type && value != null && typeof value !== rule.type) {
      throw new ValidationError(`Parameter ${index} must be of type ${rule.type}`, `param${index}`);
  }
  if (rule.min !== undefined) {
      if (rule.type === 'string' && value.length < rule.min) {
          throw new ValidationError(`Parameter ${index} must be >= ${rule.min}`, `param${index}`);
      } else if (rule.type === 'number' && value < rule.min) {
          throw new ValidationError(`Parameter ${index} must be >= ${rule.min}`, `param${index}`);
      }
  }
  if (rule.max !== undefined) {
      if (rule.type === 'string' && value.length > rule.max) {
          throw new ValidationError(`Parameter ${index} must be <= ${rule.max}`, `param${index}`);
      } else if (rule.type === 'number' && value > rule.max) {
          throw new ValidationError(`Parameter ${index} must be <= ${rule.max}`, `param${index}`);
      }
  }
  if (rule.pattern && typeof value === 'string' && !rule.pattern.test(value)) {
      throw new ValidationError(`Parameter ${index} does not match required pattern`, `param${index}`);
  }
  if (rule.validate && typeof rule.validate === 'function' && !rule.validate(value)) {
      throw new ValidationError(rule.message || `Parameter ${index} validation failed`, `param${index}`);
  }
  \<close>
\<close>

definition param_error :: "nat \<Rightarrow> string \<Rightarrow> thrown" where
  "param_error i what =
     new_ValidationError (''Parameter '' @ show_nat i @ what) (''param'' @ show_nat i)"

definition check_required :: "rule \<Rightarrow> nat \<Rightarrow> jsval \<Rightarrow> thrown option" where
  "check_required r i v =
     (if rule_required r \<and> eq_null v then Some (param_error i '' is required'') else None)"

definition check_type :: "rule \<Rightarrow> nat \<Rightarrow> jsval \<Rightarrow> thrown option" where
  "check_type r i v =
     (if type_truthy r \<and> \<not> eq_null v \<and> Some (typeof v) \<noteq> rule_type r
      then Some (param_error i ('' must be of type '' @ the (rule_type r)))
      else None)"

definition check_min :: "rule \<Rightarrow> nat \<Rightarrow> jsval \<Rightarrow> thrown option" where
  "check_min r i v =
     (case rule_min r of
        None \<Rightarrow> None
      | Some m \<Rightarrow>
          if type_is r ''string'' then
            (case value_length v of
               Inl e \<Rightarrow> Some e
             | Inr len \<Rightarrow>
                 if less_than len m then Some (param_error i ('' must be >= '' @ show_int m))
                 else None)
          else if type_is r ''number'' \<and> less_than v m
          then Some (param_error i ('' must be >= '' @ show_int m))
          else None)"

definition check_max :: "rule \<Rightarrow> nat \<Rightarrow> jsval \<Rightarrow> thrown option" where
  "check_max r i v =
     (case rule_max r of
        None \<Rightarrow> None
      | Some m \<Rightarrow>
          if type_is r ''string'' then
            (case value_length v of
               Inl e \<Rightarrow> Some e
             | Inr len \<Rightarrow>
                 if greater_than len m then Some (param_error i ('' must be <= '' @ show_int m))
                 else None)
          else if type_is r ''number'' \<and> greater_than v m
          then Some (param_error i ('' must be <= '' @ show_int m))
          else None)"

definition check_pattern :: "rule \<Rightarrow> nat \<Rightarrow> jsval \<Rightarrow> thrown option" where
  "check_pattern r i v =
     (case rule_pattern r of
        None \<Rightarrow> None
      | Some test \<Rightarrow>
          (case v of
             Str s \<Rightarrow> if \<not> test s then Some (param_error i '' does not match required pattern'')
                      else None
           | _ \<Rightarrow> None))"

definition message_or :: "rule \<Rightarrow> string \<Rightarrow> string" where
  "message_or r dflt = (case rule_message r of None \<Rightarrow> dflt | Some m \<Rightarrow> if m = [] then dflt else m)"

definition check_custom :: "rule \<Rightarrow> nat \<Rightarrow> jsval \<Rightarrow> thrown option" where
  "check_custom r i v =
     (case rule_validate r of
        None \<Rightarrow> None
      | Some p \<Rightarrow>
          if \<not> p v
          then Some (new_ValidationError
                      (message_or r (''Parameter '' @ show_nat i @ '' validation failed''))
                      (''param'' @ show_nat i))
          else None)"

definition check_param :: "rule \<Rightarrow> nat \<Rightarrow> jsval \<Rightarrow> thrown option" where
  "check_param r i v =
     orelse (check_required r i v)
       (orelse (check_type r i v)
         (orelse (check_min r i v)
           (orelse (check_max r i v)
             (orelse (check_pattern r i v) (check_custom r i v)))))"

text \<open>
  \<^verbatim>\<open>config.params.forEach((rule, index) => { if (rule && typeof rule === 'object') { ... } })\<close>:
  an entry that is not a rule object (\<open>None\<close>) is skipped, and the first throw ends the
  loop.
\<close>

fun check_params :: "rule option list \<Rightarrow> jsval list \<Rightarrow> nat \<Rightarrow> thrown option" where
  "check_params [] args i = None"
| "check_params (r # rs) args i =
     (case r of
        None \<Rightarrow> check_params rs args (Suc i)
      | Some rl \<Rightarrow>
          (case check_param rl i (index args i) of
             Some e \<Rightarrow> Some e
           | None \<Rightarrow> check_params rs args (Suc i)))"

text \<open>
  \<^verbatim>\<open>
  if (config.return && typeof config.return === 'object') {
      if (config.return.required && result == null) {
          throw new ValidationError(`Return value is required`, 'return');
      }
      if (config.return.type && result != null && typeof result !== config.return.type) {
          throw new ValidationError(`Return value must be of type ${config.return.type}`, 'return');
      }
      if (config.return.validate && typeof config.return.validate === 'function' && !config.return.validate(result)) {
          throw new ValidationError(config.return.message || 'Return value validation failed', 'return');
      }
  }
  \<close>
\<close>

definition check_return :: "rule option \<Rightarrow> jsval \<Rightarrow> thrown option" where
  "check_return ret v =
     (case ret of
        None \<Rightarrow> None
      | Some r \<Rightarrow>
          orelse
            (if rule_required r \<and> eq_null v
             then Some (new_ValidationError ''Return value is required'' ''return'') else None)
            (orelse
              (if type_truthy r \<and> \<not> eq_null v \<and> Some (typeof v) \<noteq> rule_type r
               then Some (new_ValidationError
                           (''Return value must be of type '' @ the (rule_type r)) ''return'')
               else None)
              (case rule_validate r of
                 None \<Rightarrow> None
               | Some p \<Rightarrow>
                   if \<not> p v
                   then Some (new_ValidationError
                               (message_or r ''Return value validation failed'') ''return'')
                   else None)))"

text \<open>
  \<^verbatim>\<open>
  return function validatedMethod(...args) {
      if (config.params && Array.isArray(config.params)) { config.params.forEach(...) }
      const result = originalMethod.apply(this, args);
      if (config.return && typeof config.return === 'object') { ... }
      return result;
  };
  \<close>
\<close>

definition validatedMethod :: "validate_config \<Rightarrow> 's jsfun \<Rightarrow> 's jsfun" where
  "validatedMethod config originalMethod args s =
     (case check_params (params config) args 0 of
        Some e \<Rightarrow> (Inl e, s)
      | None \<Rightarrow>
          (case originalMethod args s of
             (Inl e, s') \<Rightarrow> (Inl e, s')
           | (Inr result, s') \<Rightarrow>
               (case check_return (return_rule config) result of
                  Some e \<Rightarrow> (Inl e, s')
                | None \<Rightarrow> (Inr result, s'))))"

section \<open>rate\_limit\<close>

text \<open>
  \<^verbatim>\<open>
  const config = { requests: 10, window: '1m', strategy: 'reject', message: 'Rate limit exceeded', ...options };
  const calls = new Map();
  \<close>
\<close>

record ratelimit_config =
  requests :: int
  window :: string
  strategy :: string
  limit_message :: string
  per :: "(jsval list \<Rightarrow> jsval) option"

definition ratelimit_config_default :: ratelimit_config where
  "ratelimit_config_default =
     \<lparr>requests = 10, window = ''1m'', strategy = ''reject'',
      limit_message = ''Rate limit exceeded'', per = None\<rparr>"

record callData =
  count :: int
  start :: int
  lastResult :: jsval

definition windowMs :: "ratelimit_config \<Rightarrow> int" where
  "windowMs config =
     (if window config = ''1s'' then 1000
      else if window config = ''1m'' then 60000
      else if window config = ''1h'' then 3600000
      else 86400000)"

text \<open>
  \<^verbatim>\<open>
  return function rateLimitedMethod(...args) {
      const now = Date.now();
      const windowMs = ...;
      const key = typeof config.per === 'function' ? config.per(...args) : 'global';
      const callData = calls.get(key) || { count: 0, start: now };
      if (now - callData.start > windowMs) {
          callData.count = 0;
          callData.start = now;
      }
      if (callData.count >= config.requests) {
          const retryAfter = windowMs - (now - callData.start);
          if (config.strategy === 'reject') {
              throw new RateLimitError(config.message, retryAfter);
          }
          if (config.strategy === 'wait') {
              return new Promise(resolve =>
                  setTimeout(() => resolve(originalMethod.apply(this, args)), retryAfter)
              );
          }
          if (config.strategy === 'cache') {
              return callData.lastResult;
          }
      }
      callData.count++;
      calls.set(key, callData);
      const result = originalMethod.apply(this, args);
      callData.lastResult = result;
      return result;
  };
  \<close>
  \<open>now\<close> is the reading of \<^verbatim>\<open>Date.now()\<close> at the call. \<^verbatim>\<open>callData\<close> is the object stored
  in the map when the key is present, so resetting it changes the stored entry at once.
  Under \<^verbatim>\<open>wait\<close> the call returns a pending promise and the invocation that the timer
  makes later is outside the model. Keys are compared by value, as the \<^verbatim>\<open>Map\<close> compares
  the primitive keys; a \<^verbatim>\<open>per\<close> that returns an object or an array, which the \<^verbatim>\<open>Map\<close>
  compares by identity, is outside the model.
\<close>

definition rateLimitedMethod ::
  "ratelimit_config \<Rightarrow> 's jsfun \<Rightarrow> int \<Rightarrow> ((jsval \<rightharpoonup> callData) \<times> 's) jsfun" where
  "rateLimitedMethod config originalMethod now args st =
     (let calls = fst st; s = snd st;
          key = (case per config of Some p \<Rightarrow> p args | None \<Rightarrow> Str ''global'');
          callData0 = (case calls key of
                         Some d \<Rightarrow> d
                       | None \<Rightarrow> \<lparr>count = 0, start = now, lastResult = Undefined\<rparr>);
          callData1 = (if now - start callData0 > windowMs config
                       then callData0\<lparr>count := 0, start := now\<rparr> else callData0);
          calls1 = (if calls key = None then calls else calls(key \<mapsto> callData1));
          retryAfter = windowMs config - (now - start callData1)
      in if count callData1 \<ge> requests config \<and> strategy config = ''reject'' then
           (Inl (new_RateLimitError (limit_message config) retryAfter), (calls1, s))
         else if count callData1 \<ge> requests config \<and> strategy config = ''wait'' then
           (Inr Promise, (calls1, s))
         else if count callData1 \<ge> requests config \<and> strategy config = ''cache'' then
           (Inr (lastResult callData1), (calls1, s))
         else
           (let callData2 = callData1\<lparr>count := count callData1 + 1\<rparr>;
                calls2 = calls1(key \<mapsto> callData2)
            in case originalMethod args s of
                 (Inl e, s') \<Rightarrow> (Inl e, (calls2, s'))
               | (Inr result, s') \<Rightarrow>
                   (Inr result, (calls2(key \<mapsto> callData2\<lparr>lastResult := result\<rparr>), s'))))"

section \<open>metrics\<close>

text \<open>
  \<^verbatim>\<open>
  const config = { track: ['calls', 'duration', 'errors'], name: ..., labels: {}, type: 'counter', ...options };
  const metricsData = { calls: 0, errors: 0, totalDuration: 0, lastCalled: null, durations: [] };
  function updateMetrics(duration, error = null) {
      metricsData.lastCalled = new Date();
      if (config.track.includes('calls')) { metricsData.calls++; }
      if (config.track.includes('duration') && duration !== undefined) {
          metricsData.totalDuration += duration;
          metricsData.durations.push(duration);
      }
      if (error && config.track.includes('errors')) { metricsData.errors++; }
  }
  \<close>
  Times are integers here: \<open>perf\<close> reads \<^verbatim>\<open>performance.now()\<close> and \<open>wall\<close> reads the
  date from the state of the world.
\<close>

record metrics_config =
  track :: "string list"

definition metrics_config_default :: metrics_config where
  "metrics_config_default = \<lparr>track = [''calls'', ''duration'', ''errors'']\<rparr>"

record metricsData =
  calls :: nat
  errors :: nat
  totalDuration :: int
  lastCalled :: "int option"
  durations :: "int list"

definition metricsData_new :: metricsData where
  "metricsData_new =
     \<lparr>calls = 0, errors = 0, totalDuration = 0, lastCalled = None, durations = []\<rparr>"

definition updateMetrics ::
  "metrics_config \<Rightarrow> int \<Rightarrow> int \<Rightarrow> thrown option \<Rightarrow> metricsData \<Rightarrow> metricsData" where
  "updateMetrics config date duration error m =
     (let m1 = m\<lparr>lastCalled := Some date\<rparr>;
          m2 = (if ''calls'' \<in> set (track config) then m1\<lparr>calls := calls m1 + 1\<rparr> else m1);
          m3 = (if ''duration'' \<in> set (track config)
                then m2\<lparr>totalDuration := totalDuration m2 + duration,
                        durations := durations m2 @ [duration]\<rparr>
                else m2)
      in if (case error of None \<Rightarrow> False | Some e \<Rightarrow> thrown_truthy e)
            \<and> ''errors'' \<in> set (track config)
         then m3\<lparr>errors := errors m3 + 1\<rparr> else m3)"

text \<open>
  \<^verbatim>\<open>
  function wrappedMethod(...args) {
      const startTime = performance.now();
      try {
          const result = originalMethod.apply(this, args);
          const duration = performance.now() - startTime;
          updateMetrics(duration);
          return result;
      } catch (error) {
          const duration = performance.now() - startTime;
          updateMetrics(duration, error);
          throw error;
      }
  }
  \<close>
\<close>

definition wrappedMethod ::
  "metrics_config \<Rightarrow> ('s \<Rightarrow> int) \<Rightarrow> ('s \<Rightarrow> int) \<Rightarrow> 's jsfun \<Rightarrow> (metricsData \<times> 's) jsfun" where
  "wrappedMethod config perf wall originalMethod args st =
     (let startTime = perf (snd st)
      in case originalMethod args (snd st) of
           (Inr result, s') \<Rightarrow>
             (Inr result, (updateMetrics config (wall s') (perf s' - startTime) None (fst st), s'))
         | (Inl error, s') \<Rightarrow>
             (Inl error,
              (updateMetrics config (wall s') (perf s' - startTime) (Some error) (fst st), s')))"

section \<open>super\_matrix\<close>

text \<open>
  The composer looks the decorators up in a table and applies those that the options
  name. Its order does not depend on what a decorator does, so the decorators are
  parameters: a decorator takes its configuration and a function and gives the wrapped
  function. (How a decorator reads an array configuration, \<^verbatim>\<open>decorator(...config)\<close>, is
  part of the decorator here.) An option that is \<^verbatim>\<open>undefined\<close> or \<^verbatim>\<open>false\<close> is \<open>None\<close>.
\<close>

datatype matrix_key = K_validate | K_rateLimit | K_protect | K_varGuard | K_timeLimit
  | K_asyncRetry | K_repeat | K_throttle | K_debounce | K_immutable | K_inherit
  | K_log | K_metrics

record ('c, 'f) decorators =
  validate :: "'c \<Rightarrow> 'f \<Rightarrow> 'f"
  rate_limit :: "'c \<Rightarrow> 'f \<Rightarrow> 'f"
  protect :: "'c \<Rightarrow> 'f \<Rightarrow> 'f"
  var_guard :: "'c \<Rightarrow> 'f \<Rightarrow> 'f"
  time_limit :: "'c \<Rightarrow> 'f \<Rightarrow> 'f"
  async_retry :: "'c \<Rightarrow> 'f \<Rightarrow> 'f"
  repeat :: "'c \<Rightarrow> 'f \<Rightarrow> 'f"
  throttle :: "'c \<Rightarrow> 'f \<Rightarrow> 'f"
  debounce :: "'c \<Rightarrow> 'f \<Rightarrow> 'f"
  immutable :: "'c \<Rightarrow> 'f \<Rightarrow> 'f"
  inheritFrom :: "'c \<Rightarrow> 'f \<Rightarrow> 'f"
  logExecution :: "'c \<Rightarrow> 'f \<Rightarrow> 'f"
  metrics :: "'c \<Rightarrow> 'f \<Rightarrow> 'f"
  super_cache :: "string option \<Rightarrow> int option \<Rightarrow> 'f \<Rightarrow> 'f"

datatype cache_option = CacheType string | CacheObject "string option" "int option"

record 'c matrix_options =
  option :: "matrix_key \<Rightarrow> 'c option"
  cache_opt :: "cache_option option"

text \<open>
  \<^verbatim>\<open>
  const decoratorOrder = [
      { key: 'validate', decorator: validate },
      { key: 'rateLimit', decorator: rate_limit },
      { key: 'protect', decorator: protect },
      { key: 'varGuard', decorator: var_guard },
      { key: 'timeLimit', decorator: time_limit },
      { key: 'asyncRetry', decorator: async_retry },
      { key: 'repeat', decorator: repeat },
      { key: 'throttle', decorator: throttle },
      { key: 'debounce', decorator: debounce },
      { key: 'immutable', decorator: immutable },
      { key: 'inherit', decorator: inheritFrom },
      { key: 'log', decorator: logExecution },
      { key: 'metrics', decorator: metrics }
  ];
  \<close>
\<close>

definition decoratorOrder ::
  "('c, 'f) decorators \<Rightarrow> (matrix_key \<times> ('c \<Rightarrow> 'f \<Rightarrow> 'f)) list" where
  "decoratorOrder ds =
     [(K_validate, validate ds),
      (K_rateLimit, rate_limit ds),
      (K_protect, protect ds),
      (K_varGuard, var_guard ds),
      (K_timeLimit, time_limit ds),
      (K_asyncRetry, async_retry ds),
      (K_repeat, repeat ds),
      (K_throttle, throttle ds),
      (K_debounce, debounce ds),
      (K_immutable, immutable ds),
      (K_inherit, inheritFrom ds),
      (K_log, logExecution ds),
      (K_metrics, metrics ds)]"

text \<open>
  \<^verbatim>\<open>
  let wrappedMethod = originalMethod;
  decoratorOrder.forEach(({ key, decorator }) => {
      const config = options[key];
      if (config !== undefined && config !== false) {
          const decoratorFn = Array.isArray(config) ? decorator(...config) : decorator(config);
          const result = decoratorFn(wrappedMethod, propertyKey, { value: wrappedMethod });
          wrappedMethod = result.value || result;
      }
  });
  if (options.cache !== undefined && options.cache !== false) {
      const config = options.cache;
      const decoratorFn = typeof config === 'string' ? super_cache(config) : super_cache(config.type || 'balanced', config.maxsize);
      const result = decoratorFn(wrappedMethod, propertyKey, { value: wrappedMethod });
      wrappedMethod = result.value || result;
  }
  return wrappedMethod;
  \<close>
\<close>

definition apply_entry ::
  "'c matrix_options \<Rightarrow> 'f \<Rightarrow> matrix_key \<times> ('c \<Rightarrow> 'f \<Rightarrow> 'f) \<Rightarrow> 'f" where
  "apply_entry options wrapped entry =
     (case option options (fst entry) of
        None \<Rightarrow> wrapped
      | Some config \<Rightarrow> (snd entry) config wrapped)"

definition apply_cache :: "('c, 'f) decorators \<Rightarrow> 'c matrix_options \<Rightarrow> 'f \<Rightarrow> 'f" where
  "apply_cache ds options wrapped =
     (case cache_opt options of
        None \<Rightarrow> wrapped
      | Some (CacheType t) \<Rightarrow> super_cache ds (Some t) None wrapped
      | Some (CacheObject t m) \<Rightarrow>
          super_cache ds
            (Some (case t of None \<Rightarrow> ''balanced'' | Some t' \<Rightarrow> if t' = [] then ''balanced'' else t'))
            m wrapped)"

definition super_matrix :: "('c, 'f) decorators \<Rightarrow> 'c matrix_options \<Rightarrow> 'f \<Rightarrow> 'f" where
  "super_matrix ds options originalMethod =
     apply_cache ds options (foldl (apply_entry options) originalMethod (decoratorOrder ds))"

text \<open>
  The composed function of \<^verbatim>\<open>cache\<close> and \<^verbatim>\<open>metrics\<close> closes over one cache and one
  metrics accumulator, both created when the function is wrapped. \<open>world\<close> holds them
  next to the state of everything below, and the two decorators act each on its own
  component.
\<close>

record 's world =
  cache_state :: "string UniversalLRU"
  metrics_state :: metricsData
  inner_state :: 's

definition world_new :: "string option \<Rightarrow> int option \<Rightarrow> 's \<Rightarrow> 's world" where
  "world_new type_arg maxsize_arg s =
     \<lparr>cache_state = super_cache_new type_arg maxsize_arg,
      metrics_state = metricsData_new, inner_state = s\<rparr>"

definition world_super_cache :: "'s world jsfun \<Rightarrow> 's world jsfun" where
  "world_super_cache f args w =
     (case cachedMethod f args (cache_state w, w) of
        (r, (c', w')) \<Rightarrow> (r, w'\<lparr>cache_state := c'\<rparr>))"

definition world_metrics ::
  "metrics_config \<Rightarrow> ('s world \<Rightarrow> int) \<Rightarrow> ('s world \<Rightarrow> int) \<Rightarrow> 's world jsfun \<Rightarrow> 's world jsfun"
  where
  "world_metrics config perf wall f args w =
     (case wrappedMethod config perf wall f args (metrics_state w, w) of
        (r, (m', w')) \<Rightarrow> (r, w'\<lparr>metrics_state := m'\<rparr>))"

section \<open>Recency invariant\<close>

text \<open>
  The key that was touched longest ago, among the keys of the cache, by the recorded
  positions alone.
\<close>

definition least_recent :: "'k history \<Rightarrow> 'k" where
  "least_recent h = arg_min_list (last_touch h) (keys (lru h))"

text \<open>
  What every history keeps: the capacity is unchanged, no key occurs twice, the size is
  within the capacity, the keys stand in the map in the order of their last touch, and no
  touch lies in the future.
\<close>

definition lru_inv :: "int \<Rightarrow> 'k history \<Rightarrow> bool" where
  "lru_inv n h \<longleftrightarrow>
     maxSize (lru h) = n \<and> distinct (keys (lru h)) \<and> int (length (keys (lru h))) \<le> n
     \<and> sorted_wrt (<) (map (last_touch h) (keys (lru h)))
     \<and> (\<forall>k \<in> set (keys (lru h)). last_touch h k < clock h)"


section \<open>Example functions and configurations\<close>

text \<open>
  The part of the composer's chain below \<^verbatim>\<open>metrics\<close>: the first twelve entries of the
  table, applied in order.
\<close>

definition below_metrics :: "('c, 'f) decorators \<Rightarrow> 'c matrix_options \<Rightarrow> 'f \<Rightarrow> 'f" where
  "below_metrics ds opts f = foldl (apply_entry opts) f (butlast (decoratorOrder ds))"

text \<open>
  A base function that throws on its first two invocations and returns on the third (its
  state counts the invocations), as in the library's test of \<^verbatim>\<open>repeat\<close>.
\<close>

definition flaky :: "nat jsfun" where
  "flaky args s = (if s < 2 then Inl (new_Error ''Service temporarily unavailable'')
                   else Inr (Str ''Success''), Suc s)"

text \<open>An \<^verbatim>\<open>async\<close> function that always rejects, retried twice.\<close>

definition always_fails :: "unit jsfun" where
  "always_fails args s = (Inl (new_Error ''Network error''), s)"

definition two_attempts :: retry_config where
  "two_attempts = retry_config_default\<lparr>retry_attempts := 2, retry_delay_ms := 10\<rparr>"

text \<open>The rule \<^verbatim>\<open>{ type: 'number', required: true, min: 10 }\<close> and a function that returns 5.\<close>

definition number_at_least_10 :: rule where
  "number_at_least_10 =
     \<lparr>rule_type = Some ''number'', rule_required = True, rule_min = Some 10,
      rule_max = None, rule_pattern = None, rule_validate = None, rule_message = None\<rparr>"

definition returns_5 :: "unit jsfun" where
  "returns_5 args s = (Inr (Num 5), s)"

text \<open>
  \<^verbatim>\<open>rate_limit({ requests: 2, window: '1s', strategy: 'reject' })\<close> and a base function
  whose state counts its invocations.
\<close>

definition two_per_second :: ratelimit_config where
  "two_per_second = ratelimit_config_default\<lparr>requests := 2, window := ''1s''\<rparr>"

definition makeRequest :: "nat jsfun" where
  "makeRequest args s = (Inr (Str ''API response''), Suc s)"

text \<open>
  \<^verbatim>\<open>super_matrix({ cache: 'fast', metrics: {} })\<close> over a table in which the other twelve
  decorators, none of them configured, are left as the identity; the clocks stand still.
\<close>

definition plain_decorators :: "(metrics_config, unit world jsfun) decorators" where
  "plain_decorators =
     \<lparr>validate = (\<lambda>c f. f), rate_limit = (\<lambda>c f. f), protect = (\<lambda>c f. f),
      var_guard = (\<lambda>c f. f), time_limit = (\<lambda>c f. f), async_retry = (\<lambda>c f. f),
      repeat = (\<lambda>c f. f), throttle = (\<lambda>c f. f), debounce = (\<lambda>c f. f),
      immutable = (\<lambda>c f. f), inheritFrom = (\<lambda>c f. f), logExecution = (\<lambda>c f. f),
      metrics = (\<lambda>c. world_metrics c (\<lambda>w. 0) (\<lambda>w. 0)),
      super_cache = (\<lambda>t m. world_super_cache)\<rparr>"

definition cache_and_metrics :: "metrics_config matrix_options" where
  "cache_and_metrics =
     \<lparr>option = (\<lambda>k. if k = K_metrics then Some metrics_config_default else None),
      cache_opt = Some (CacheType ''fast'')\<rparr>"

definition returns_undefined :: "unit world jsfun" where
  "returns_undefined args w = (Inr Undefined, w)"

definition returns_260 :: "unit world jsfun" where
  "returns_260 args w = (Inr (Num 260), w)"

section \<open>Properties of the key builder\<close>

text \<open>
  On the values of the model, the key of an argument list is the key of the general path,
  \<^verbatim>\<open>args.join('|')\<close>, unless the list has one or two arguments and one of them is
  \<^verbatim>\<open>null\<close> or \<^verbatim>\<open>undefined\<close>.
\<close>

lemma fastKey_join_iff:
  "fastKey None = [] \<and> fastKey (Some []) = [] \<and>
   (fastKey (Some args) = join args ''|''
      \<longleftrightarrow> (length args \<le> 2 \<longrightarrow> (\<forall>a\<in>set args. \<not> eq_null a)))"
proof -
  have "fastKey (Some args) = join args ''|''
      \<longleftrightarrow> (length args \<le> 2 \<longrightarrow> (\<forall>a\<in>set args. \<not> eq_null a))"
  proof (cases args)
    case Nil
    then show ?thesis by (simp add: join_def)
  next
    case (Cons a as)
    note c1 = Cons
    show ?thesis
    proof (cases as)
      case Nil
      with c1 show ?thesis by (auto simp add: join_def index_def eq_null_def)
    next
      case (Cons b bs)
      note c2 = Cons
      show ?thesis
      proof (cases bs)
        case Nil
        with c1 c2 show ?thesis
          by (auto simp add: join_def index_def eq_null_def plus_string_def string_plus_def)
      next
        case (Cons c cs)
        with c1 c2 show ?thesis by simp
      qed
    qed
  qed
  then show ?thesis by simp
qed

text \<open>
  Claim C8 says that the one- and two-argument paths of \<open>fastKey\<close> give the key that the
  general path gives, so that the number of arguments never changes the key. The three
  paths do not print \<^verbatim>\<open>null\<close> and \<^verbatim>\<open>undefined\<close> alike: the general path, \<^verbatim>\<open>join\<close>, prints
  them as the empty string, and the two fast paths, \<^verbatim>\<open>String(x)\<close> and \<^verbatim>\<open>x + '|' + y\<close>,
  print them by name. For the argument list \<^verbatim>\<open>[null]\<close> the key is \<^verbatim>\<open>null\<close> where the
  general path gives the empty key, for \<^verbatim>\<open>[undefined, 1]\<close> it is \<^verbatim>\<open>undefined|1\<close> where the
  general path gives \<^verbatim>\<open>|1\<close>, and with a third argument the same \<^verbatim>\<open>undefined\<close> is printed
  as the empty string by \<open>fastKey\<close> itself.
\<close>

theorem fastKey_fast_paths_print_null_by_name:
  "fastKey (Some [Null]) = ''null'' \<and> join [Null] ''|'' = []
   \<and> fastKey (Some [Undefined, Num 1]) = ''undefined|1''
   \<and> join [Undefined, Num 1] ''|'' = ''|1''
   \<and> fastKey (Some [Undefined, Num 1, Num 2]) = ''|1|2''"
  by (simp add: index_def join_def plus_string_def string_plus_def show_int_def digits.simps)

section \<open>Properties of the bounded cache\<close>

lemma keys_Map_delete: "map fst (Map_delete m k) = removeAll k (map fst m)"
  by (induction m) (auto simp: Map_delete_def)

lemma Map_set_new: "k \<notin> set (map fst m) \<Longrightarrow> Map_set m k v = m @ [(k, v)]"
  by (induction m) auto

lemma Map_delete_absent: "k \<notin> set (map fst (Map_delete m k))"
  by (simp add: keys_Map_delete)

lemma map_of_append_new: "k \<notin> set (map fst m) \<Longrightarrow> map_of (m @ [(k, v)]) k = Some v"
  by (induction m) auto

text \<open>The keys of the cache after \<^verbatim>\<open>get\<close> and \<^verbatim>\<open>set\<close>.\<close>

lemma keys_get_hit:
  "Map_has (cache c) k \<Longrightarrow> keys (snd (UniversalLRU_get c k)) = removeAll k (keys c) @ [k]"
  by (simp add: UniversalLRU_get_def keys_def Let_def Map_set_new keys_Map_delete)

lemma keys_get_miss:
  "\<not> Map_has (cache c) k \<Longrightarrow> snd (UniversalLRU_get c k) = c\<lparr>misses := misses c + 1\<rparr>"
  by (simp add: UniversalLRU_get_def)

lemma keys_set_present:
  "Map_has (cache c) k \<Longrightarrow> keys (UniversalLRU_set c k v) = removeAll k (keys c) @ [k]"
  by (simp add: UniversalLRU_set_def keys_def Let_def Map_set_new keys_Map_delete)

lemma keys_set_room:
  "\<not> Map_has (cache c) k \<Longrightarrow> \<not> Map_size (cache c) \<ge> maxSize c \<Longrightarrow>
   keys (UniversalLRU_set c k v) = keys c @ [k]"
  by (simp add: UniversalLRU_set_def keys_def Let_def Map_set_new Map_has_def)

lemma keys_set_full:
  assumes "\<not> Map_has (cache c) k" "Map_size (cache c) \<ge> maxSize c"
  shows "keys (UniversalLRU_set c k v) = (case keys c of [] \<Rightarrow> [] | e # es \<Rightarrow> removeAll e (keys c)) @ [k]"
proof (cases "cache c")
  case Nil
  with assms show ?thesis by (simp add: UniversalLRU_set_def keys_def Let_def)
next
  case (Cons p ps)
  obtain e x where p: "p = (e, x)" by (cases p)
  have ne: "k \<notin> set (map fst (cache c))" using assms(1) by (simp add: Map_has_def)
  then have "k \<notin> set (map fst (Map_delete (cache c) e))"
    by (simp add: keys_Map_delete)
  then have "Map_set (Map_delete (cache c) e) k v = Map_delete (cache c) e @ [(k, v)]"
    by (rule Map_set_new)
  with assms Cons p show ?thesis
    by (simp add: UniversalLRU_set_def keys_def Let_def keys_Map_delete)
qed

lemma maxSize_get [simp]: "maxSize (snd (UniversalLRU_get c k)) = maxSize c"
  by (simp add: UniversalLRU_get_def Let_def)

lemma maxSize_set [simp]: "maxSize (UniversalLRU_set c k v) = maxSize c"
  by (simp add: UniversalLRU_set_def Let_def)

lemma maxSize_apply_op [simp]: "maxSize (apply_op c x) = maxSize c"
  by (cases x) simp_all

lemma inv_start: "1 \<le> n \<Longrightarrow> lru_inv n (history_start n)"
  by (simp add: lru_inv_def history_start_def UniversalLRU_new_def keys_def)

lemma length_removeAll_mem: "distinct ks \<Longrightarrow> k \<in> set ks \<Longrightarrow> length (removeAll k ks) + 1 = length ks"
  by (induction ks) (auto)

lemma keys_step_touch:
  assumes "lru_inv n h" "1 \<le> n" "touches (lru h) x"
  shows "\<exists>ks. set ks \<subseteq> set (keys (lru h)) \<and> distinct ks \<and> sorted_wrt (<) (map (last_touch h) ks) 
     \<and> op_key x \<notin> set ks \<and> int (length ks) + 1 \<le> n \<and> keys (apply_op (lru h) x) = ks @ [op_key x]"
proof -
  let ?c = "lru h" and ?k = "op_key x"
  from assms(1) have d: "distinct (keys ?c)" and len: "int (length (keys ?c)) \<le> n"
    and srt: "sorted_wrt (<) (map (last_touch h) (keys ?c))" and mx: "maxSize ?c = n"
    by (auto simp: lru_inv_def)
  have rm: "\<And>e. sorted_wrt (<) (map (last_touch h) (removeAll e (keys ?c)))"
  proof -
    fix e
    have "\<And>ks. sorted_wrt (<) (map (last_touch h) ks) \<Longrightarrow> sorted_wrt (<) (map (last_touch h) (removeAll e ks))"
      subgoal for ks by (induction ks) auto
      done
    then show "sorted_wrt (<) (map (last_touch h) (removeAll e (keys ?c)))" using srt by blast
  qed
  show ?thesis
  proof (cases "Map_has (cache ?c) ?k")
    case True
    then have kin: "?k \<in> set (keys ?c)" by (simp add: Map_has_def keys_def)
    have "keys (apply_op ?c x) = removeAll ?k (keys ?c) @ [?k]"
      using True by (cases x) (simp_all add: keys_get_hit keys_set_present)
    moreover have "int (length (removeAll ?k (keys ?c))) + 1 \<le> n"
      using length_removeAll_mem[OF d kin] len by linarith
    ultimately show ?thesis using d rm
      by (intro exI[of _ "removeAll ?k (keys ?c)"]) (auto simp: distinct_removeAll)
  next
    case False
    then obtain v where x: "x = Set ?k v" using assms(3) by (cases x) auto
    have knin: "?k \<notin> set (keys ?c)" using False by (simp add: Map_has_def keys_def)
    show ?thesis
    proof (cases "Map_size (cache ?c) \<ge> maxSize ?c")
      case full: True
      then have "keys ?c \<noteq> []" using mx assms(2) by (auto simp: Map_size_def keys_def)
      then obtain e es where ks: "keys ?c = e # es" by (cases "keys ?c") auto
      have eq: "keys (apply_op ?c x) = removeAll e (keys ?c) @ [?k]"
        using keys_set_full[OF False full, of v] ks x by (metis apply_op.simps(2) list.simps(5))
      have "int (length (removeAll e (keys ?c))) + 1 \<le> n"
        using length_removeAll_mem[OF d, of e] ks len by simp
      then show ?thesis using eq d rm knin
        by (intro exI[of _ "removeAll e (keys ?c)"]) (auto simp: distinct_removeAll)
    next
      case room: False
      have eq: "keys (apply_op ?c x) = keys ?c @ [?k]"
        using keys_set_room[OF False room, of v] x by (metis apply_op.simps(2))
      have "int (length (keys ?c)) + 1 \<le> n"
        using room mx by (simp add: Map_size_def keys_def)
      then show ?thesis using eq d srt knin
        by (intro exI[of _ "keys ?c"]) auto
    qed
  qed
qed

lemma inv_step:
  assumes "lru_inv n h" "1 \<le> n"
  shows "lru_inv n (step h x)"
proof (cases "touches (lru h) x")
  case True
  from keys_step_touch[OF assms True] obtain ks where
    ks: "set ks \<subseteq> set (keys (lru h))" "distinct ks" "sorted_wrt (<) (map (last_touch h) ks)"
        "op_key x \<notin> set ks" "int (length ks) + 1 \<le> n" "keys (apply_op (lru h) x) = ks @ [op_key x]"
    by blast
  from assms(1) have bound: "\<forall>k \<in> set (keys (lru h)). last_touch h k < clock h" and mx: "maxSize (lru h) = n"
    by (auto simp: lru_inv_def)
  have m: "map ((last_touch h)(op_key x := clock h)) ks = map (last_touch h) ks"
    using ks(4) by (induction ks) auto
  show ?thesis
    using True ks bound mx m
    by (auto simp: lru_inv_def step_def sorted_wrt_append less_Suc_eq)
next
  case False
  then obtain k where x: "x = Get k" and miss: "\<not> Map_has (cache (lru h)) k" by (cases x) auto
  have "keys (apply_op (lru h) x) = keys (lru h)"
    using x miss by (simp add: keys_get_miss keys_def)
  then show ?thesis using assms(1) False
    by (auto simp: lru_inv_def step_def less_Suc_eq)
qed

lemma inv_replay: "1 \<le> n \<Longrightarrow> lru_inv n (replay n ops)"
  unfolding replay_def
  by (induction ops rule: rev_induct) (simp_all add: inv_start inv_step)

lemma lru_replay: "lru (replay n ops) = run_ops (UniversalLRU_new (Some n)) ops"
  unfolding replay_def run_ops_def
  by (induction ops rule: rev_induct) (simp_all add: history_start_def step_def)

lemma arg_min_sorted_hd:
  "sorted_wrt (<) (map (f :: 'a \<Rightarrow> nat) xs) \<Longrightarrow> xs \<noteq> [] \<Longrightarrow> arg_min_list f xs = hd xs"
proof (induction f xs rule: arg_min_list.induct)
  case (1 f x)
  then show ?case by simp
next
  case (2 f x y zs)
  have "arg_min_list f (y # zs) \<in> set (y # zs)" by (rule arg_min_list_in) simp
  then have "f x < f (arg_min_list f (y # zs))" using 2(2) by auto
  then show ?case by (simp add: Let_def)
next
  case (3 a)
  then show ?case by simp
qed

lemma get_absent: "\<not> Map_has (cache c) k \<Longrightarrow> UniversalLRU_get c k = (Undefined, c\<lparr>misses := misses c + 1\<rparr>)"
  by (simp add: UniversalLRU_get_def)

lemma keys_apply_op_subset:
  "set (keys (apply_op c x)) \<subseteq> set (keys c) \<union> (case x of Get k \<Rightarrow> {} | Set k v \<Rightarrow> {k})"
proof (cases x)
  case (Get k)
  show ?thesis
  proof (cases "Map_has (cache c) k")
    case True
    then show ?thesis using Get keys_get_hit[OF True] by (auto simp: Map_has_def keys_def)
  next
    case False
    then show ?thesis using Get by (simp add: keys_get_miss keys_def)
  qed
next
  case (Set k v)
  show ?thesis
  proof (cases "Map_has (cache c) k")
    case True
    then show ?thesis using Set keys_set_present[OF True, of v] by auto
  next
    case False
    note absent = False
    show ?thesis
    proof (cases "Map_size (cache c) \<ge> maxSize c")
      case True
      then show ?thesis using Set keys_set_full[OF absent True, of v]
        by (auto split: list.splits)
    next
      case False
      then show ?thesis using Set keys_set_room[OF absent False, of v] by auto
    qed
  qed
qed

lemma absent_until_set:
  assumes "e \<notin> set (keys c)" and "\<forall>v. Set e v \<notin> set ops"
  shows "e \<notin> set (keys (run_ops c ops))"
  using assms(2)
proof (induction ops rule: rev_induct)
  case Nil
  then show ?case using assms(1) by (simp add: run_ops_def)
next
  case (snoc x xs)
  then have IH: "e \<notin> set (keys (run_ops c xs))" by simp
  have "\<forall>v. x \<noteq> Set e v" using snoc.prems by auto
  then have "e \<notin> (case x of Get k \<Rightarrow> {} | Set k v \<Rightarrow> {k})"
    by (cases x) auto
  then show ?case using IH keys_apply_op_subset[of "run_ops c xs" x]
    by (auto simp: run_ops_def)
qed

lemma evict_least_recent:
  assumes n: "1 \<le> n" and h: "h = replay n ops" and c: "c = lru h"
    and c': "c' = UniversalLRU_set c k v"
    and new: "\<not> Map_has (cache c) k" and full: "Map_size (cache c) = n"
  shows "least_recent h \<in> set (keys c)"
    and "\<forall>k'\<in>set (keys c). k' \<noteq> least_recent h \<longrightarrow> last_touch h (least_recent h) < last_touch h k'"
    and "set (keys c') = set (keys c) - {least_recent h} \<union> {k}"
    and "Map_size (cache c') = n"
    and "UniversalLRU_get c' (least_recent h) = (Undefined, c'\<lparr>misses := misses c' + 1\<rparr>)"
    and "\<forall>later. (\<forall>v'. Set (least_recent h) v' \<notin> set later) \<longrightarrow>
           UniversalLRU_get (run_ops c' later) (least_recent h)
             = (Undefined, (run_ops c' later)\<lparr>misses := misses (run_ops c' later) + 1\<rparr>)"
proof -
  have I: "lru_inv n h" using n h by (simp add: inv_replay)
  then have d: "distinct (keys c)" and srt: "sorted_wrt (<) (map (last_touch h) (keys c))"
    and mx: "maxSize c = n"
    using c by (auto simp: lru_inv_def)
  have ne: "keys c \<noteq> []" using full n by (auto simp: Map_size_def keys_def)
  then obtain e es where ks: "keys c = e # es" by (cases "keys c") auto
  have lr: "least_recent h = e"
    using arg_min_sorted_hd[OF srt ne] ks c by (simp add: least_recent_def)
  show "least_recent h \<in> set (keys c)" using lr ks by simp
  show "\<forall>k'\<in>set (keys c). k' \<noteq> least_recent h \<longrightarrow> last_touch h (least_recent h) < last_touch h k'"
    using srt ks lr by auto
  have full': "Map_size (cache c) \<ge> maxSize c" using full mx by simp
  have keq: "keys c' = es @ [k]"
    using keys_set_full[OF new full', of v] ks d c' by simp
  have kne: "k \<noteq> e" using new ks by (auto simp: Map_has_def keys_def)
  show "set (keys c') = set (keys c) - {least_recent h} \<union> {k}"
    using keq ks lr d by auto
  have "length (keys c) = length (keys c')" using keq ks by simp
  then show "Map_size (cache c') = n" using full by (simp add: Map_size_def keys_def)
  have gone: "e \<notin> set (keys c')" using keq ks d kne by auto
  then have "\<not> Map_has (cache c') e" by (simp add: Map_has_def keys_def)
  then show "UniversalLRU_get c' (least_recent h) = (Undefined, c'\<lparr>misses := misses c' + 1\<rparr>)"
    using lr by (simp add: get_absent)
  show "\<forall>later. (\<forall>v'. Set (least_recent h) v' \<notin> set later) \<longrightarrow>
           UniversalLRU_get (run_ops c' later) (least_recent h)
             = (Undefined, (run_ops c' later)\<lparr>misses := misses (run_ops c' later) + 1\<rparr>)"
  proof (intro allI impI)
    fix later
    assume "\<forall>v'. Set (least_recent h) v' \<notin> set later"
    then have "e \<notin> set (keys (run_ops c' later))"
      using absent_until_set[OF gone, of later] lr by simp
    then have "\<not> Map_has (cache (run_ops c' later)) e" by (simp add: Map_has_def keys_def)
    then show "UniversalLRU_get (run_ops c' later) (least_recent h)
             = (Undefined, (run_ops c' later)\<lparr>misses := misses (run_ops c' later) + 1\<rparr>)"
      using lr by (simp add: get_absent)
  qed
qed

lemma size_bounded: "1 \<le> n \<Longrightarrow> Map_size (cache (run_ops (UniversalLRU_new (Some n)) ops)) \<le> n"
  using inv_replay[of n ops] lru_replay[of n ops] by (simp add: lru_inv_def Map_size_def keys_def)


text \<open>
  Claim C1: a cache of capacity \<open>n \<ge> 1\<close>, after any sequence of \<^verbatim>\<open>get\<close> and \<^verbatim>\<open>set\<close>
  operations, holds at most \<open>n\<close> entries. When it is full and a key that is not cached is
  set, the key that leaves is the one whose last touch (a \<^verbatim>\<open>set\<close>, or a \<^verbatim>\<open>get\<close> that hit)
  is older than the last touch of every other key; all other keys stay, the size stays
  \<open>n\<close>, and a \<^verbatim>\<open>get\<close> of the key that left is a miss, at once and after any later
  operations that do not set that key again. Here \<open>h\<close> is the history of the
  operations \<open>ops\<close> on a new cache and \<open>c\<close> the cache it leads to, which is the cache the
  operations give without the bookkeeping of touches.
\<close>

theorem lru_bounded_evicts_least_recent:
  assumes "1 \<le> n" and "h = replay n ops" and "c = lru h" and "c' = UniversalLRU_set c k v"
  shows "c = run_ops (UniversalLRU_new (Some n)) ops \<and> Map_size (cache c) \<le> n \<and>
    (\<not> Map_has (cache c) k \<and> Map_size (cache c) = n \<longrightarrow>
       least_recent h \<in> set (keys c)
       \<and> (\<forall>k'\<in>set (keys c). k' \<noteq> least_recent h
             \<longrightarrow> last_touch h (least_recent h) < last_touch h k')
       \<and> set (keys c') = set (keys c) - {least_recent h} \<union> {k}
       \<and> Map_size (cache c') = n
       \<and> UniversalLRU_get c' (least_recent h) = (Undefined, c'\<lparr>misses := misses c' + 1\<rparr>)
       \<and> (\<forall>later. (\<forall>v'. Set (least_recent h) v' \<notin> set later) \<longrightarrow>
             UniversalLRU_get (run_ops c' later) (least_recent h)
               = (Undefined,
                  (run_ops c' later)\<lparr>misses := misses (run_ops c' later) + 1\<rparr>)))"
proof -
  have "c = run_ops (UniversalLRU_new (Some n)) ops"
    using assms(2,3) lru_replay[of n ops] by simp
  moreover have "Map_size (cache c) \<le> n"
    using calculation size_bounded[OF assms(1), of ops] by simp
  ultimately show ?thesis
    using evict_least_recent[OF assms(1) assms(2) assms(3) assms(4)] by blast
qed

text \<open>
  The witness: capacity 2, \<^verbatim>\<open>set a\<close>, \<^verbatim>\<open>set b\<close>, \<^verbatim>\<open>get a\<close>, then \<^verbatim>\<open>set c\<close>. The \<^verbatim>\<open>get\<close>
  touched \<^verbatim>\<open>a\<close>, so \<^verbatim>\<open>b\<close> is the key that leaves.
\<close>

lemma ex_lru: "lru (replay 2 [Set ''a'' (Num 1), Set ''b'' (Num 2), Get ''a'']) =
   \<lparr>maxSize = 2, cache = [(''b'', Num 2), (''a'', Num 1)], hits = 1, misses = 0\<rparr>"
  by (simp add: replay_def history_start_def step_def UniversalLRU_new_def UniversalLRU_set_def
      UniversalLRU_get_def Map_has_def Map_size_def Map_get_def Map_delete_def Let_def)

lemma ex_touch: "last_touch (replay 2 [Set ''a'' (Num 1), Set ''b'' (Num 2), Get ''a'']) ''a'' = 2"
  "last_touch (replay 2 [Set ''a'' (Num 1), Set ''b'' (Num 2), Get ''a'']) ''b'' = 1"
  by (simp_all add: replay_def history_start_def step_def UniversalLRU_new_def UniversalLRU_set_def
      UniversalLRU_get_def Map_has_def Map_size_def Map_get_def Map_delete_def Let_def)

theorem lru_bounded_evicts_least_recent_witness:
  "(1::int) \<le> 2 \<and>
   \<not> Map_has (cache (lru (replay 2 [Set ''a'' (Num 1), Set ''b'' (Num 2), Get ''a'']))) ''c'' \<and>
   Map_size (cache (lru (replay 2 [Set ''a'' (Num 1), Set ''b'' (Num 2), Get ''a'']))) = 2 \<and>
   least_recent (replay 2 [Set ''a'' (Num 1), Set ''b'' (Num 2), Get ''a'']) = ''b'' \<and>
   fst (UniversalLRU_get
         (UniversalLRU_set (lru (replay 2 [Set ''a'' (Num 1), Set ''b'' (Num 2), Get ''a'']))
            ''c'' (Num 3)) ''b'') = Undefined"
proof -
  let ?ops = "[Set ''a'' (Num 1), Set ''b'' (Num 2), Get ''a'']"
  have lr: "least_recent (replay 2 ?ops) = ''b''"
    by (simp add: least_recent_def keys_def ex_lru ex_touch)
  have hyp: "\<not> Map_has (cache (lru (replay 2 ?ops))) ''c''
      \<and> Map_size (cache (lru (replay 2 ?ops))) = 2"
    by (simp add: ex_lru Map_has_def Map_size_def)
  have n: "(1::int) \<le> 2" by simp
  from lru_bounded_evicts_least_recent [OF n refl refl refl, of ?ops "''c''" "Num 3"] hyp
  have "UniversalLRU_get (UniversalLRU_set (lru (replay 2 ?ops)) ''c'' (Num 3))
          (least_recent (replay 2 ?ops))
     = (Undefined, (UniversalLRU_set (lru (replay 2 ?ops)) ''c'' (Num 3))
          \<lparr>misses := misses (UniversalLRU_set (lru (replay 2 ?ops)) ''c'' (Num 3)) + 1\<rparr>)"
    by blast
  then show ?thesis using lr hyp by simp
qed

text \<open>
  Claim C7, as stated, asks the result of a \<^verbatim>\<open>get\<close> that misses to differ from every
  cached value. A cached \<^verbatim>\<open>undefined\<close> is returned as \<^verbatim>\<open>undefined\<close>, which is also what
  a miss returns: here \<^verbatim>\<open>a\<close> is cached, \<^verbatim>\<open>b\<close> is not, and both reads give the same.
\<close>

theorem get_conflates_cached_undefined:
  "Map_has (cache (UniversalLRU_set (UniversalLRU_new (Some 2)) ''a'' Undefined)) ''a''
   \<and> \<not> Map_has (cache (UniversalLRU_set (UniversalLRU_new (Some 2)) ''a'' Undefined)) ''b''
   \<and> fst (UniversalLRU_get (UniversalLRU_set (UniversalLRU_new (Some 2)) ''a'' Undefined) ''a'')
     = fst (UniversalLRU_get (UniversalLRU_set (UniversalLRU_new (Some 2)) ''a'' Undefined) ''b'')"
  by (simp add: UniversalLRU_set_def UniversalLRU_new_def UniversalLRU_get_def Map_has_def
      Map_size_def Map_get_def Map_delete_def Let_def)

text \<open>
  Claim C7, amended: a \<^verbatim>\<open>get\<close> of a key that is not cached returns \<^verbatim>\<open>undefined\<close> and
  counts a miss; a \<^verbatim>\<open>get\<close> of a cached key returns the cached value and counts a hit. So
  the returned value tells a miss from a hit exactly when the cached value is not
  \<^verbatim>\<open>undefined\<close> (a cached \<^verbatim>\<open>null\<close> is told apart), and only the counters tell a cached
  \<^verbatim>\<open>undefined\<close> from a miss.
\<close>

theorem get_miss_and_hit:
  assumes "\<not> Map_has (cache c) k" and "map_of (cache c) k' = Some v"
  shows "UniversalLRU_get c k = (Undefined, c\<lparr>misses := misses c + 1\<rparr>)
     \<and> fst (UniversalLRU_get c k') = v
     \<and> hits (snd (UniversalLRU_get c k')) = hits c + 1
     \<and> misses (snd (UniversalLRU_get c k')) = misses c
     \<and> (fst (UniversalLRU_get c k) \<noteq> fst (UniversalLRU_get c k') \<longleftrightarrow> v \<noteq> Undefined)"
proof -
  have "Map_has (cache c) k'"
    using assms(2) by (auto simp: Map_has_def dest: map_of_SomeD intro: rev_image_eqI)
  then show ?thesis using assms
    by (auto simp: UniversalLRU_get_def Let_def Map_get_def)
qed

theorem get_miss_and_hit_witness:
  "\<not> Map_has [(''a'', Null)] ''b'' \<and> map_of [(''a'', Null)] ''a'' = Some Null
   \<and> fst (UniversalLRU_get \<lparr>maxSize = 2, cache = [(''a'', Null)], hits = 0, misses = 0\<rparr> ''b'')
     \<noteq> fst (UniversalLRU_get \<lparr>maxSize = 2, cache = [(''a'', Null)], hits = 0, misses = 0\<rparr> ''a'')"
proof -
  have 1: "\<not> Map_has (cache \<lparr>maxSize = 2, cache = [(''a'', Null)], hits = 0, misses = 0\<rparr>) ''b''"
    by (simp add: Map_has_def)
  have 2: "map_of (cache \<lparr>maxSize = 2, cache = [(''a'', Null)], hits = 0, misses = 0\<rparr>) ''a''
      = Some Null"
    by simp
  from get_miss_and_hit [OF 1 2] have
    "fst (UniversalLRU_get \<lparr>maxSize = 2, cache = [(''a'', Null)], hits = 0, misses = 0\<rparr> ''b'')
     \<noteq> fst (UniversalLRU_get \<lparr>maxSize = 2, cache = [(''a'', Null)], hits = 0, misses = 0\<rparr> ''a'')"
    by simp
  then show ?thesis using 1 2 by simp
qed

text \<open>A cache whose capacity is zero or negative.\<close>

lemma length_le1_delete: "length m \<le> 1 \<Longrightarrow> Map_has m k \<Longrightarrow> Map_delete m k = []"
  by (cases m) (auto simp: Map_has_def Map_delete_def)

lemma set_nonpositive:
  assumes "maxSize c \<le> 0" "length (cache c) \<le> 1"
  shows "cache (UniversalLRU_set c k v) = [(k, v)]"
proof (cases "cache c")
  case Nil
  with assms show ?thesis by (simp add: UniversalLRU_set_def Map_has_def Map_size_def)
next
  case (Cons p ps)
  with assms(2) have ps: "ps = []" by simp
  obtain e x where p: "p = (e, x)" by (cases p)
  show ?thesis using assms(1) Cons ps p
    by (simp add: UniversalLRU_set_def Map_has_def Map_size_def Map_delete_def)
qed

lemma get_nonpositive:
  assumes "length (cache c) \<le> 1"
  shows "length (cache (snd (UniversalLRU_get c k))) \<le> 1"
proof (cases "Map_has (cache c) k")
  case True
  then show ?thesis using length_le1_delete[OF assms True]
    by (simp add: UniversalLRU_get_def Let_def)
next
  case False
  then show ?thesis using assms by (simp add: UniversalLRU_get_def)
qed

lemma run_nonpositive:
  "n \<le> 0 \<Longrightarrow> maxSize (run_ops (UniversalLRU_new (Some n)) ops) = n
     \<and> length (cache (run_ops (UniversalLRU_new (Some n)) ops)) \<le> 1"
proof (induction ops rule: rev_induct)
  case Nil
  then show ?case by (simp add: run_ops_def UniversalLRU_new_def)
next
  case (snoc x xs)
  then have IH: "maxSize (run_ops (UniversalLRU_new (Some n)) xs) = n"
     "length (cache (run_ops (UniversalLRU_new (Some n)) xs)) \<le> 1" by auto
  show ?case
  proof (cases x)
    case (Get k)
    then show ?thesis using IH get_nonpositive[OF IH(2), of k] by (simp add: run_ops_def)
  next
    case (Set k v)
    then show ?thesis using IH set_nonpositive[of "run_ops (UniversalLRU_new (Some n)) xs" k v] snoc(2)
      by (simp add: run_ops_def)
  qed
qed

text \<open>
  Claim C9, as stated, asks a cache of capacity \<open>\<le> 0\<close> to be refused when it is made or
  never to store an entry. The constructor takes any capacity, and a \<^verbatim>\<open>set\<close> on the new
  cache of capacity 0 stores the entry.
\<close>

theorem nonpositive_capacity_stores_entry:
  "cache (UniversalLRU_set (UniversalLRU_new (Some 0)) ''a'' (Num 1)) = [(''a'', Num 1)]"
  by (simp add: UniversalLRU_set_def UniversalLRU_new_def Map_has_def Map_size_def)

text \<open>
  Claim C9, amended: a cache of capacity \<open>n \<le> 0\<close> is made like any other, and after any
  sequence of operations a \<^verbatim>\<open>set\<close> returns normally and leaves exactly the entry just
  set: the cache behaves as one of capacity 1.
\<close>

theorem nonpositive_capacity_keeps_last:
  "n \<le> 0 \<Longrightarrow> cache (UniversalLRU_set (run_ops (UniversalLRU_new (Some n)) ops) k v) = [(k, v)]"
  using run_nonpositive[of n ops] set_nonpositive by metis

theorem nonpositive_capacity_keeps_last_witness:
  "(0::int) \<le> 0 \<and>
   cache (UniversalLRU_set (run_ops (UniversalLRU_new (Some 0)) [Set ''a'' (Num 1), Get ''a''])
            ''b'' Null) = [(''b'', Null)]"
  using nonpositive_capacity_keeps_last [of 0 "[Set ''a'' (Num 1), Get ''a'']" "''b''" Null]
  by simp

section \<open>Properties of super\_cache\<close>

lemma evict_absent:
  "k \<notin> set (map fst m) \<Longrightarrow>
   k \<notin> set (map fst (case m of [] \<Rightarrow> m | (firstKey, _) # _ \<Rightarrow> Map_delete m firstKey))"
  by (cases m) (auto simp: Map_delete_def)

lemma set_then_has:
  "map_of (cache (UniversalLRU_set c k v)) k = Some v \<and> Map_has (cache (UniversalLRU_set c k v)) k"
proof -
  define cache1 where "cache1 =
            (if Map_has (cache c) k then Map_delete (cache c) k
             else if Map_size (cache c) \<ge> maxSize c then
               (case cache c of
                  [] \<Rightarrow> cache c
                | (firstKey, _) # _ \<Rightarrow> Map_delete (cache c) firstKey)
             else cache c)"
  have "k \<notin> set (map fst cache1)"
  proof (cases "Map_has (cache c) k")
    case True
    then show ?thesis using Map_delete_absent[of k "cache c"] by (simp add: cache1_def)
  next
    case False
    then have "k \<notin> set (map fst (cache c))" by (simp add: Map_has_def)
    then show ?thesis using False evict_absent[of k "cache c"]
      by (simp add: cache1_def)
  qed
  then have "Map_set cache1 k v = cache1 @ [(k, v)]" "map_of (cache1 @ [(k, v)]) k = Some v"
    by (rule Map_set_new, rule map_of_append_new)
  moreover have "cache (UniversalLRU_set c k v) = Map_set cache1 k v"
    by (simp add: UniversalLRU_set_def cache1_def Let_def)
  ultimately show ?thesis by (simp add: Map_has_def)
qed

lemma get_present:
  assumes "map_of (cache c) k = Some v" "Map_has (cache c) k"
  shows "\<exists>c'. UniversalLRU_get c k = (v, c') \<and> hits c' = hits c + 1 \<and> misses c' = misses c"
  using assms by (simp add: UniversalLRU_get_def Let_def Map_get_def)

lemma cached_first_call:
  assumes "\<not> Map_has (cache c0) (fastKey (Some args))"
    and "cachedMethod g args (c0, s0) = (Inr v, st1)"
  shows "g args s0 = (Inr v, snd st1)
     \<and> fst st1 = UniversalLRU_set (c0\<lparr>misses := misses c0 + 1\<rparr>) (fastKey (Some args)) v"
  using assms
  by (auto simp: cachedMethod_def Let_def get_absent split: prod.splits sum.splits)

lemma cached_second_call:
  assumes "fst st1 = UniversalLRU_set c (fastKey (Some args)) v" "v \<noteq> Undefined"
  shows "\<exists>c2. cachedMethod g args st1 = (Inr v, (c2, snd st1))
     \<and> hits c2 = hits c + 1 \<and> misses c2 = misses c"
proof -
  let ?k = "fastKey (Some args)"
  have "map_of (cache (fst st1)) ?k = Some v" "Map_has (cache (fst st1)) ?k"
    using set_then_has[of c ?k v] assms(1) by simp_all
  from get_present[OF this] obtain c' where
    g: "UniversalLRU_get (fst st1) ?k = (v, c')" "hits c' = hits (fst st1) + 1" "misses c' = misses (fst st1)"
    by blast
  have "hits (fst st1) = hits c" "misses (fst st1) = misses c"
    using assms(1) by (simp_all add: UniversalLRU_set_def Let_def)
  then show ?thesis using g assms(2)
    by (simp add: cachedMethod_def Let_def)
qed

text \<open>
  Claim C3, as stated, holds for every base function. A base function that returns
  \<^verbatim>\<open>undefined\<close> is invoked again by the second call, because \<open>cachedMethod\<close> reads the
  cached \<^verbatim>\<open>undefined\<close> as a miss: after two calls with the same argument the base
  function has run twice.
\<close>

theorem super_cache_undefined_recomputed:
  "fst (snd (snd (cachedMethod (counting (\<lambda>args s. (Inr Undefined, s))) [Num 1]
     (snd (cachedMethod (counting (\<lambda>args s. (Inr Undefined, s))) [Num 1]
        (super_cache_new None None, (0, ()))))))) = 2"
  by (simp add: cachedMethod_def counting_def super_cache_new_def UniversalLRU_new_def
      UniversalLRU_get_def UniversalLRU_set_def Map_has_def Map_get_def Map_size_def
      Map_delete_def index_def Let_def)

text \<open>
  Claim C3, amended: for every base function, cache configuration and argument list, when
  the first call of the newly wrapped function returns a value other than
  \<^verbatim>\<open>undefined\<close>, the second call with the same arguments returns that value from the
  cache; the base function has then been invoked exactly once, and \<^verbatim>\<open>cache_info().hits\<close>
  is 1. (A call that throws stores nothing, and a returned \<^verbatim>\<open>undefined\<close> is not
  recognised as cached.)
\<close>

theorem super_cache_second_call_hit:
  assumes "cachedMethod (counting f) args (super_cache_new t m, (0, s)) = (Inr v, st1)"
    and "v \<noteq> Undefined"
  shows "\<exists>st2. cachedMethod (counting f) args st1 = (Inr v, st2)
           \<and> fst (snd st1) = 1 \<and> fst (snd st2) = 1
           \<and> info_hits (cache_info st2) = 1"
proof -
  have fresh: "\<not> Map_has (cache (super_cache_new t m)) (fastKey (Some args))"
    by (simp add: super_cache_new_def UniversalLRU_new_def Map_has_def)
  from cached_first_call[OF fresh assms(1)]
  have 1: "counting f args (0, s) = (Inr v, snd st1)"
    and 2: "fst st1 = UniversalLRU_set ((super_cache_new t m)\<lparr>misses := misses (super_cache_new t m) + 1\<rparr>) (fastKey (Some args)) v"
    by auto
  obtain r s' where fs: "f args s = (r, s')" by fastforce
  with 1 have "snd st1 = (1, s')" by (simp add: counting_def)
  then have cnt: "fst (snd st1) = 1" by simp
  from cached_second_call[OF 2 assms(2), of "counting f"] obtain c2 where
    "cachedMethod (counting f) args st1 = (Inr v, (c2, snd st1))" "hits c2 = 1"
    by (auto simp: super_cache_new_def UniversalLRU_new_def)
  then show ?thesis using cnt
    by (simp add: cache_info_def UniversalLRU_info_def)
qed


theorem super_cache_second_call_hit_witness:
  "cachedMethod (counting (\<lambda>args s. (Inr (Num 8), s))) [Num 5, Num 3]
      (super_cache_new (Some ''balanced'') (Some 64), (0, ()))
     = (Inr (Num 8),
        (\<lparr>maxSize = 64, cache = [(''5|3'', Num 8)], hits = 0, misses = 1\<rparr>, (1, ())))
   \<and> Num 8 \<noteq> Undefined
   \<and> (\<exists>st2. cachedMethod (counting (\<lambda>args s. (Inr (Num 8), s))) [Num 5, Num 3]
          (\<lparr>maxSize = 64, cache = [(''5|3'', Num 8)], hits = 0, misses = 1\<rparr>, (1, ()))
            = (Inr (Num 8), st2)
        \<and> fst (snd st2) = 1 \<and> info_hits (cache_info st2) = 1)"
proof -
  have 1: "cachedMethod (counting (\<lambda>args s. (Inr (Num 8), s))) [Num 5, Num 3]
      (super_cache_new (Some ''balanced'') (Some 64), (0, ()))
     = (Inr (Num 8),
        (\<lparr>maxSize = 64, cache = [(''5|3'', Num 8)], hits = 0, misses = 1\<rparr>, (1, ())))"
    by (simp add: cachedMethod_def counting_def super_cache_new_def UniversalLRU_new_def
        super_cache_size_def UniversalLRU_get_def UniversalLRU_set_def Map_has_def Map_get_def
        Map_size_def Map_delete_def index_def Let_def plus_string_def string_plus_def
        show_int_def digits.simps)
  have 2: "Num 8 \<noteq> Undefined" by simp
  from super_cache_second_call_hit [OF 1 2] show ?thesis using 1 by simp
qed

section \<open>Properties of repeat\<close>

lemma nth_state_counting:
  "nth_state (counting f) args (c, s) n = (c + n, nth_state f args s n)"
  by (induction n) (auto simp: counting_def split: prod.splits)

lemma nth_result_counting:
  "nth_result (counting f) args (c, s) n = nth_result f args s n"
  by (simp add: nth_result_def nth_state_counting counting_def split: prod.splits)

lemma repeat_loop_success:
  assumes "\<forall>j. i \<le> j \<and> j < k \<longrightarrow> isl (nth_result g args s j)"
    and "nth_result g args s k = Inr v" and "i \<le> k" and "int k < n"
  shows "repeat_loop n g args i err (nth_state g args s i) = (Inr v, nth_state g args s (Suc k))"
  using assms
proof (induction "k - i" arbitrary: i err)
  case 0
  then have "i = k" by simp
  then show ?case using 0
    by (subst repeat_loop.simps) (auto simp: nth_result_def split: prod.splits sum.splits)
next
  case (Suc d)
  then have lt: "i < k" by simp
  then have "isl (nth_result g args s i)" using Suc.prems(1) by simp
  then obtain e where e: "nth_result g args s i = Inl e" by (cases "nth_result g args s i") auto
  have IH: "repeat_loop n g args (Suc i) e (nth_state g args s (Suc i)) = (Inr v, nth_state g args s (Suc k))"
    using Suc.hyps(1)[of "Suc i" e] Suc.hyps(2) Suc.prems lt by auto
  have "int i < n" using lt Suc.prems(4) by simp
  then show ?case using e IH
    by (subst repeat_loop.simps) (auto simp: nth_result_def split: prod.splits sum.splits)
qed

lemma repeat_loop_exhaust:
  assumes "\<forall>j. i \<le> j \<and> int j < n \<longrightarrow> isl (nth_result g args s j)"
  shows "repeat_loop n g args i err (nth_state g args s i) =
     (if int i < n then nth_result g args s (nat n - 1) else Inl err, nth_state g args s (max i (nat n)))"
  using assms
proof (induction "nat n - i" arbitrary: i err)
  case 0
  then have "\<not> int i < n" by simp
  moreover from 0 have "max i (nat n) = i" by simp
  ultimately show ?case
    by (subst repeat_loop.simps) simp
next
  case (Suc d)
  then have lt: "int i < n" by simp
  then have "isl (nth_result g args s i)" using Suc.prems(1) by simp
  then obtain e where e: "nth_result g args s i = Inl e" by (cases "nth_result g args s i") auto
  have IH: "repeat_loop n g args (Suc i) e (nth_state g args s (Suc i)) =
     (if int (Suc i) < n then nth_result g args s (nat n - 1) else Inl e, nth_state g args s (max (Suc i) (nat n)))"
    using Suc.hyps(1)[of "Suc i" e] Suc.hyps(2) Suc.prems by auto
  have last: "\<not> int (Suc i) < n \<Longrightarrow> nat n - 1 = i" using lt by linarith
  have mx: "max (Suc i) (nat n) = max i (nat n)" using lt by linarith
  show ?case using e IH lt last mx
    by (subst repeat_loop.simps) (auto simp: nth_result_def split: prod.splits sum.splits)
qed

text \<open>
  Claim C10: let the base function fail on its first \<open>k - 1\<close> invocations and return \<open>v\<close>
  on invocation \<open>k\<close>. Wrapped with \<^verbatim>\<open>repeat(n)\<close> for \<open>n \<ge> k\<close>, the call returns \<open>v\<close> after
  exactly \<open>k\<close> invocations. For \<open>n < k\<close> the call invokes the base function exactly \<open>n\<close>
  times (no time for \<open>n \<le> 0\<close>) and throws what the last of these invocations threw; with
  no invocation at all, what it throws is \<^verbatim>\<open>undefined\<close>. The counter in the state counts
  the invocations, and the rest of the state is the state after that many invocations.
\<close>

theorem repeat_invocations:
  assumes "1 \<le> k" and "\<forall>j<k - 1. isl (nth_result f args s j)"
    and "nth_result f args s (k - 1) = Inr v"
  shows "(int k \<le> n \<longrightarrow>
            repeatedMethod (Some n) delay (counting f) args (0, s)
              = (Inr v, (k, nth_state f args s k)))
       \<and> (n < int k \<longrightarrow>
            repeatedMethod (Some n) delay (counting f) args (0, s) =
              (if 0 < n then nth_result f args s (nat n - 1) else Inl (Thrown Undefined),
               (nat n, nth_state f args s (nat n)))
            \<and> (0 < n \<longrightarrow> isl (nth_result f args s (nat n - 1))))"
proof (intro conjI impI)
  assume kn: "int k \<le> n"
  have a: "\<forall>j. 0 \<le> j \<and> j < k - 1 \<longrightarrow> isl (nth_result (counting f) args (0, s) j)"
    using assms(2) by (simp add: nth_result_counting)
  have b: "nth_result (counting f) args (0, s) (k - 1) = Inr v"
    using assms(3) by (simp add: nth_result_counting)
  have c: "int (k - 1) < n" using kn assms(1) by linarith
  from repeat_loop_success[OF a b _ c, of "Thrown Undefined"] assms(1)
  show "repeatedMethod (Some n) delay (counting f) args (0, s) = (Inr v, (k, nth_state f args s k))"
    by (simp add: repeatedMethod_def nth_state_counting)
next
  assume nk: "n < int k"
  have a: "\<forall>j. 0 \<le> j \<and> int j < n \<longrightarrow> isl (nth_result (counting f) args (0, s) j)"
    using assms(2) nk by (auto simp add: nth_result_counting)
  from repeat_loop_exhaust[OF a, of "Thrown Undefined"]
  show "repeatedMethod (Some n) delay (counting f) args (0, s) =
              (if 0 < n then nth_result f args s (nat n - 1) else Inl (Thrown Undefined),
               (nat n, nth_state f args s (nat n)))"
    by (simp add: repeatedMethod_def nth_state_counting nth_result_counting)
next
  assume "n < int k" "0 < n"
  then have "nat n - 1 < k - 1" by linarith
  then show "isl (nth_result f args s (nat n - 1))" using assms(2) by blast
qed

theorem repeat_invocations_witness:
  "(1::nat) \<le> 3 \<and> isl (nth_result flaky [] 0 0) \<and> isl (nth_result flaky [] 0 1)
   \<and> nth_result flaky [] 0 (3 - 1) = Inr (Str ''Success'')
   \<and> repeatedMethod (Some 3) (Some 10) (counting flaky) [] (0, 0)
        = (Inr (Str ''Success''), (3, 3))
   \<and> repeatedMethod (Some 2) (Some 10) (counting flaky) [] (0, 0)
        = (Inl (new_Error ''Service temporarily unavailable''), (2, 2))"
proof -
  have st: "\<And>j. nth_state flaky [] 0 j = j"
    subgoal for j by (induction j) (simp_all add: flaky_def)
    done
  have r: "\<And>j. nth_result flaky [] 0 j =
      (if j < 2 then Inl (new_Error ''Service temporarily unavailable'')
       else Inr (Str ''Success''))"
    by (simp add: nth_result_def st flaky_def)
  have 1: "(1::nat) \<le> 3" by simp
  have 2: "\<forall>j<3 - 1. isl (nth_result flaky [] 0 j)" by (simp add: r)
  have 3: "nth_result flaky [] 0 (3 - 1) = Inr (Str ''Success'')" by (simp add: r)
  from repeat_invocations [OF 1 2 3, of 3 "Some 10"]
  have a: "repeatedMethod (Some 3) (Some 10) (counting flaky) [] (0, 0)
      = (Inr (Str ''Success''), (3, 3))"
    by (simp add: st)
  from repeat_invocations [OF 1 2 3, of 2 "Some 10"]
  have b: "repeatedMethod (Some 2) (Some 10) (counting flaky) [] (0, 0)
        = (Inl (new_Error ''Service temporarily unavailable''), (2, 2))"
    by (simp add: st r)
  show ?thesis using a b 3 by (simp add: r)
qed

section \<open>Properties of async\_retry\<close>

text \<open>
  With a non-empty \<^verbatim>\<open>retryOn\<close>, an error that is an instance of none of the listed
  classes is rethrown by the first attempt that meets it, and the base function is not
  invoked again.
\<close>

lemma retry_not_listed_rethrown:
  assumes "retryOn config \<noteq> []" and "\<forall>c \<in> set (retryOn config). \<not> instanceof e c"
    and "0 < retry_attempts config" and "f args s = (Inl e, s')"
  shows "retryMethod config p (counting f) args (0, s) = (Inl e, (1, s'))"
  using assms
  by (simp add: retryMethod_def retry_loop.simps counting_def list_ex_iff)

text \<open>
  Claim C4 says that the failure raised after the last attempt carries the attempt count
  and the last underlying error. \<^verbatim>\<open>retryMethod\<close> passes \<^verbatim>\<open>lastError\<close> to the constructor
  of \<^verbatim>\<open>RetryError\<close>, but the constructor has no parameter for it: with two attempts on a
  function that always rejects with \<^verbatim>\<open>Error('Network error')\<close>, the error raised has the
  attempt count 2 and its \<^verbatim>\<open>originalError\<close> is \<^verbatim>\<open>undefined\<close>; the underlying error is in
  none of its properties.
\<close>

theorem retry_error_drops_last_error:
  "retryMethod two_attempts ''fetchData'' always_fails [] ()
     = (Inl (ErrorObj RetryError ''Method fetchData failed after 2 attempts''
               (Some ''asyncRetry'') None None None None (Some 2)), ())"
  by (simp add: retryMethod_def retry_loop.simps two_attempts_def retry_config_default_def
      always_fails_def new_RetryError_def show_int_def digits.simps)

section \<open>Properties of validate\<close>

text \<open>
  Claim C6 says that the rule classes checked on the parameters are checked on the return
  value too. With the rule \<^verbatim>\<open>{ type: 'number', required: true, min: 10 }\<close> given both for
  the first parameter and for the return value, the argument 5 is refused with a
  validation failure that names parameter 0, while the return value 5 passes: the return
  value is checked for \<^verbatim>\<open>required\<close>, \<^verbatim>\<open>type\<close> and the custom predicate only, never for
  \<^verbatim>\<open>min\<close>, \<^verbatim>\<open>max\<close> or \<^verbatim>\<open>pattern\<close>.
\<close>

theorem validate_return_skips_min:
  "validatedMethod
      \<lparr>params = [Some number_at_least_10], return_rule = Some number_at_least_10,
       throwOnError = True, logErrors = True\<rparr> returns_5 [Num 12] ()
     = (Inr (Num 5), ())
   \<and> validatedMethod
      \<lparr>params = [Some number_at_least_10], return_rule = Some number_at_least_10,
       throwOnError = True, logErrors = True\<rparr> returns_5 [Num 5] ()
     = (Inl (new_ValidationError ''Parameter 0 must be >= 10'' ''param0''), ())"
  by (simp add: validatedMethod_def check_param_def check_required_def check_type_def
      check_min_def check_max_def check_pattern_def check_custom_def check_return_def
      orelse_def number_at_least_10_def returns_5_def index_def eq_null_def type_truthy_def
      type_is_def less_than_def param_error_def show_int_def show_nat_def digits.simps)

section \<open>Properties of rate\_limit\<close>

lemma rate_first_call:
  assumes "requests config = 2" "per config = None"
  shows "rateLimitedMethod config f t0 args (Map.empty, s) =
     (fst (f args s),
      ([Str ''global'' \<mapsto> \<lparr>count = 1, start = t0,
           lastResult = (case fst (f args s) of Inl e \<Rightarrow> Undefined | Inr r \<Rightarrow> r)\<rparr>],
       snd (f args s)))"
  using assms
  by (auto simp: rateLimitedMethod_def Let_def split: prod.splits sum.splits)

lemma rate_second_call:
  assumes "requests config = 2" "per config = None" "window config = ''1s''"
    and "t1 - t0 \<le> 1000"
  shows "rateLimitedMethod config f t1 args
           ([Str ''global'' \<mapsto> \<lparr>count = 1, start = t0, lastResult = l\<rparr>], s) =
     (fst (f args s),
      ([Str ''global'' \<mapsto> \<lparr>count = 2, start = t0,
           lastResult = (case fst (f args s) of Inl e \<Rightarrow> l | Inr r \<Rightarrow> r)\<rparr>],
       snd (f args s)))"
  using assms
  by (auto simp: rateLimitedMethod_def windowMs_def Let_def split: prod.splits sum.splits)

lemma rate_third_call:
  assumes "requests config = 2" "per config = None" "window config = ''1s''"
    and "strategy config = ''reject''" and "t2 - t0 \<le> 1000"
  shows "rateLimitedMethod config f t2 args
           ([Str ''global'' \<mapsto> \<lparr>count = 2, start = t0, lastResult = l\<rparr>], s) =
     (Inl (ErrorObj RateLimitError (limit_message config) (Some ''rateLimit'') None None
             (Some (1000 - (t2 - t0))) None None),
      ([Str ''global'' \<mapsto> \<lparr>count = 2, start = t0, lastResult = l\<rparr>], s))"
  using assms
  by (auto simp: rateLimitedMethod_def windowMs_def new_RateLimitError_def Let_def)

lemma rate_after_window:
  assumes "requests config = 2" "per config = None" "window config = ''1s''"
    and "t3 - t0 > 1000"
  shows "rateLimitedMethod config f t3 args
           ([Str ''global'' \<mapsto> \<lparr>count = 2, start = t0, lastResult = l\<rparr>], s) =
     (fst (f args s),
      ([Str ''global'' \<mapsto> \<lparr>count = 1, start = t3,
           lastResult = (case fst (f args s) of Inl e \<Rightarrow> l | Inr r \<Rightarrow> r)\<rparr>],
       snd (f args s)))"
  using assms
  by (auto simp: rateLimitedMethod_def windowMs_def Let_def split: prod.splits sum.splits)

text \<open>
  At the very end of the window, 1000 ms after its start, the window is not yet reset:
  the call is still refused, and the retry-after value it carries is 0.
\<close>

lemma rate_limit_at_window_end:
  assumes "requests config = 2" "per config = None" "window config = ''1s''"
    and "strategy config = ''reject''"
  shows "rateLimitedMethod config f (t0 + 1000) args
           ([Str ''global'' \<mapsto> \<lparr>count = 2, start = t0, lastResult = l\<rparr>], s) =
     (Inl (ErrorObj RateLimitError (limit_message config) (Some ''rateLimit'') None None
             (Some 0) None None),
      ([Str ''global'' \<mapsto> \<lparr>count = 2, start = t0, lastResult = l\<rparr>], s))"
  using rate_third_call[OF assms, of "t0 + 1000" t0 f args l s] by simp

lemmas rate_eval = rateLimitedMethod_def two_per_second_def ratelimit_config_default_def
  makeRequest_def windowMs_def new_RateLimitError_def Let_def

text \<open>
  Claim C5, as stated, has every third call within the window throw a failure with a
  positive retry-after value, and every call after the window invoke the base function.
  Take the calls at 0 ms, 10 ms and 1000 ms. The window that the first call opened is
  reset only when more than 1000 ms have passed, so the third call is refused; the
  \<^verbatim>\<open>RateLimitError\<close> it throws carries the retry-after value 0, which is not positive, and
  the base function has run twice, not three times.
\<close>

theorem rate_limit_retry_after_zero:
  "fst (rateLimitedMethod two_per_second makeRequest 1000 [Str ''data3'']
         (snd (rateLimitedMethod two_per_second makeRequest 10 [Str ''data2'']
           (snd (rateLimitedMethod two_per_second makeRequest 0 [Str ''data1'']
             (Map.empty, 0))))))
     = Inl (ErrorObj RateLimitError ''Rate limit exceeded'' (Some ''rateLimit'') None None
             (Some 0) None None)
   \<and> snd (snd (rateLimitedMethod two_per_second makeRequest 1000 [Str ''data3'']
         (snd (rateLimitedMethod two_per_second makeRequest 10 [Str ''data2'']
           (snd (rateLimitedMethod two_per_second makeRequest 0 [Str ''data1'']
             (Map.empty, 0))))))) = 2"
  by (simp add: rate_eval)

text \<open>
  Claim C5, amended: \<^verbatim>\<open>rate_limit\<close> with \<^verbatim>\<open>requests = 2\<close>, \<^verbatim>\<open>window = '1s'\<close> and the
  strategy \<^verbatim>\<open>reject\<close>, newly wrapped, called at the times \<open>t0\<close>, \<open>t1\<close>, \<open>t2\<close>, \<open>t3\<close>. The
  first call opens the window at \<open>t0\<close>. The first two calls, the second at most 1000 ms
  after \<open>t0\<close>, invoke the base function and give its result. The third call, less than
  1000 ms after \<open>t0\<close>, throws an error of the class \<^verbatim>\<open>RateLimitError\<close> whose
  \<^verbatim>\<open>retryAfter\<close> is the time left of the 1000 ms, which is positive, and leaves the whole
  state as it was: the base function did not run. The fourth call, more than 1000 ms
  after \<open>t0\<close>, invokes the base function again.
\<close>

theorem rate_limit_reject_two_per_second:
  assumes cfg: "requests config = 2" "window config = ''1s''" "strategy config = ''reject''"
      "per config = None"
    and t: "t1 - t0 \<le> 1000" "t2 - t0 < 1000" "t3 - t0 > 1000"
    and c1: "rateLimitedMethod config f t0 a0 (Map.empty, s0) = (r1, st1)"
    and c2: "rateLimitedMethod config f t1 a1 st1 = (r2, st2)"
    and c3: "rateLimitedMethod config f t2 a2 st2 = (r3, st3)"
    and c4: "rateLimitedMethod config f t3 a3 st3 = (r4, st4)"
  shows "(r1, snd st1) = f a0 s0 \<and> (r2, snd st2) = f a1 (snd st1)
       \<and> (\<exists>e. r3 = Inl e \<and> cls e = RateLimitError \<and> instanceof e RateLimitError
              \<and> message e = limit_message config \<and> decoratorName e = Some ''rateLimit''
              \<and> retryAfter e = Some (1000 - (t2 - t0)))
       \<and> r3 = Inl (ErrorObj RateLimitError (limit_message config) (Some ''rateLimit'') None
                    None (Some (1000 - (t2 - t0))) None None)
       \<and> 0 < 1000 - (t2 - t0) \<and> st3 = st2
       \<and> (r4, snd st4) = f a3 (snd st3)"
proof -
  from c1 rate_first_call[OF cfg(1) cfg(4), of f t0 a0 s0] obtain l1 where
    1: "(r1, snd st1) = f a0 s0"
      "st1 = ([Str ''global'' \<mapsto> \<lparr>count = 1, start = t0, lastResult = l1\<rparr>], snd st1)"
    by auto
  from c2 1(2) rate_second_call[OF cfg(1) cfg(4) cfg(2) t(1), of f a1 l1 "snd st1"]
  obtain l2 where
    2: "(r2, snd st2) = f a1 (snd st1)"
      "st2 = ([Str ''global'' \<mapsto> \<lparr>count = 2, start = t0, lastResult = l2\<rparr>], snd st2)"
    by (metis fst_conv snd_conv prod.collapse)
  have le: "t2 - t0 \<le> 1000" using t(2) by simp
  from c3 2(2) rate_third_call[OF cfg(1) cfg(4) cfg(2) cfg(3) le, of f a2 l2 "snd st2"] have
    3: "r3 = Inl (ErrorObj RateLimitError (limit_message config) (Some ''rateLimit'') None
                    None (Some (1000 - (t2 - t0))) None None)" "st3 = st2"
    by (metis fst_conv, metis snd_conv)
  from c4 3(2) 2(2) rate_after_window[OF cfg(1) cfg(4) cfg(2) t(3), of f a3 l2 "snd st2"] have
    4: "(r4, snd st4) = f a3 (snd st3)"
    by (metis fst_conv snd_conv prod.collapse)
  show ?thesis using 1(1) 2(1) 3 4 t(2) by simp
qed

theorem rate_limit_reject_two_per_second_witness:
  "requests two_per_second = 2 \<and> window two_per_second = ''1s''
   \<and> strategy two_per_second = ''reject'' \<and> per two_per_second = None
   \<and> (10::int) - 0 \<le> 1000 \<and> (20::int) - 0 < 1000 \<and> (1100::int) - 0 > 1000
   \<and> rateLimitedMethod two_per_second makeRequest 0 [Str ''data1''] (Map.empty, 0)
       = (Inr (Str ''API response''),
          ([Str ''global'' \<mapsto> \<lparr>count = 1, start = 0, lastResult = Str ''API response''\<rparr>], 1))
   \<and> rateLimitedMethod two_per_second makeRequest 10 [Str ''data2'']
         ([Str ''global'' \<mapsto> \<lparr>count = 1, start = 0, lastResult = Str ''API response''\<rparr>], 1)
       = (Inr (Str ''API response''),
          ([Str ''global'' \<mapsto> \<lparr>count = 2, start = 0, lastResult = Str ''API response''\<rparr>], 2))
   \<and> rateLimitedMethod two_per_second makeRequest 20 [Str ''data3'']
         ([Str ''global'' \<mapsto> \<lparr>count = 2, start = 0, lastResult = Str ''API response''\<rparr>], 2)
       = (Inl (ErrorObj RateLimitError ''Rate limit exceeded'' (Some ''rateLimit'') None None
                (Some 980) None None),
          ([Str ''global'' \<mapsto> \<lparr>count = 2, start = 0, lastResult = Str ''API response''\<rparr>], 2))
   \<and> rateLimitedMethod two_per_second makeRequest 1100 [Str ''data4'']
         ([Str ''global'' \<mapsto> \<lparr>count = 2, start = 0, lastResult = Str ''API response''\<rparr>], 2)
       = (Inr (Str ''API response''),
          ([Str ''global'' \<mapsto> \<lparr>count = 1, start = 1100, lastResult = Str ''API response''\<rparr>], 3))"
proof -
  let ?m1 = "[Str ''global'' \<mapsto> \<lparr>count = 1, start = 0, lastResult = Str ''API response''\<rparr>]"
  let ?m2 = "[Str ''global'' \<mapsto> \<lparr>count = 2, start = 0, lastResult = Str ''API response''\<rparr>]"
  let ?m4 = "[Str ''global'' \<mapsto> \<lparr>count = 1, start = 1100, lastResult = Str ''API response''\<rparr>]"
  have cfg: "requests two_per_second = 2" "window two_per_second = ''1s''"
      "strategy two_per_second = ''reject''" "per two_per_second = None"
    by (simp_all add: two_per_second_def ratelimit_config_default_def)
  have t: "(10::int) - 0 \<le> 1000" "(20::int) - 0 < 1000" "(1100::int) - 0 > 1000"
    by simp_all
  have c1: "rateLimitedMethod two_per_second makeRequest 0 [Str ''data1''] (Map.empty, 0)
       = (Inr (Str ''API response''), (?m1, 1))"
    by (simp add: rate_eval)
  have c2: "rateLimitedMethod two_per_second makeRequest 10 [Str ''data2''] (?m1, 1)
       = (Inr (Str ''API response''), (?m2, 2))"
    by (simp add: rate_eval)
  obtain r3 st3 where c3: "rateLimitedMethod two_per_second makeRequest 20 [Str ''data3'']
       (?m2, 2) = (r3, st3)"
    by (metis prod.collapse)
  have c4: "rateLimitedMethod two_per_second makeRequest 1100 [Str ''data4''] (?m2, 2)
       = (Inr (Str ''API response''), (?m4, 3))"
    by (simp add: rate_eval)
  have lm: "limit_message two_per_second = ''Rate limit exceeded''"
    by (simp add: two_per_second_def ratelimit_config_default_def)
  have third: "r3 = Inl (ErrorObj RateLimitError ''Rate limit exceeded'' (Some ''rateLimit'')
         None None (Some 980) None None) \<and> st3 = (?m2, 2)"
  proof -
    obtain r4 st4 where c4': "rateLimitedMethod two_per_second makeRequest 1100
        [Str ''data4''] st3 = (r4, st4)"
      by (metis prod.collapse)
    from rate_limit_reject_two_per_second [OF cfg t c1 c2 c3 c4'] lm
    show ?thesis by simp
  qed
  show ?thesis using cfg c1 c2 c3 c4 third by simp
qed

section \<open>Properties of super\_matrix\<close>

lemma decoratorOrder_last:
  "decoratorOrder ds = butlast (decoratorOrder ds) @ [(K_metrics, metrics ds)]"
  by (simp add: decoratorOrder_def)

lemma super_matrix_cache_metrics:
  assumes "option opts K_metrics = Some mc" "cache_opt opts = Some cc"
    and "super_cache ds = (\<lambda>t m. C)"
  shows "super_matrix ds opts f = C (metrics ds mc (below_metrics ds opts f))"
proof -
  have "foldl (apply_entry opts) f (decoratorOrder ds)
      = apply_entry opts (below_metrics ds opts f) (K_metrics, metrics ds)"
    by (subst decoratorOrder_last) (simp only: foldl_append foldl.simps below_metrics_def)
  also have "\<dots> = metrics ds mc (below_metrics ds opts f)"
    using assms(1) by (simp add: apply_entry_def)
  finally have "foldl (apply_entry opts) f (decoratorOrder ds)
      = metrics ds mc (below_metrics ds opts f)" .
  then show ?thesis using assms(2,3)
    by (simp add: super_matrix_def apply_cache_def split: cache_option.splits)
qed

lemma calls_updateMetrics:
  "calls (updateMetrics config d dur e m)
     = (if ''calls'' \<in> set (track config) then calls m + 1 else calls m)"
  by (simp add: updateMetrics_def Let_def)

lemma world_metrics_calls:
  assumes "world_metrics config perf wall g args w = (r, w')"
  shows "calls (metrics_state w')
     = (if ''calls'' \<in> set (track config) then calls (metrics_state w) + 1 else calls (metrics_state w))"
  using assms
  by (auto simp: world_metrics_def wrappedMethod_def Let_def calls_updateMetrics
      split: prod.splits sum.splits)

lemma world_cache_twice:
  assumes fresh: "cache (cache_state w0) = []"
    and first: "world_super_cache M args w0 = (Inr v, w1)" and v: "v \<noteq> Undefined"
  shows "\<exists>w' w2. M args w0 = (Inr v, w') \<and> metrics_state w1 = metrics_state w'
           \<and> world_super_cache M args w1 = (Inr v, w2) \<and> metrics_state w2 = metrics_state w1"
proof -
  obtain r c' w' where cm: "cachedMethod M args (cache_state w0, w0) = (r, (c', w'))"
    by (metis prod.collapse)
  with first have r: "r = Inr v" and w1: "w1 = w'\<lparr>cache_state := c'\<rparr>"
    by (simp_all add: world_super_cache_def)
  have nk: "\<not> Map_has (cache (cache_state w0)) (fastKey (Some args))"
    using fresh by (simp add: Map_has_def)
  from cached_first_call[OF nk cm[unfolded r]]
  have M: "M args w0 = (Inr v, w')"
    and c': "c' = UniversalLRU_set ((cache_state w0)\<lparr>misses := misses (cache_state w0) + 1\<rparr>) (fastKey (Some args)) v"
    by simp_all
  have "fst (cache_state w1, w1) = UniversalLRU_set ((cache_state w0)\<lparr>misses := misses (cache_state w0) + 1\<rparr>) (fastKey (Some args)) v"
    using w1 c' by simp
  from cached_second_call[OF this v, of M] obtain c2 where
    "cachedMethod M args (cache_state w1, w1) = (Inr v, (c2, w1))" by auto
  then have "world_super_cache M args w1 = (Inr v, w1\<lparr>cache_state := c2\<rparr>)"
    by (simp add: world_super_cache_def)
  then show ?thesis using M w1 by simp
qed

lemma cache_metrics_once:
  assumes m: "metrics ds = (\<lambda>c. world_metrics (mcfg c) perf wall)"
    and sc: "super_cache ds = (\<lambda>t m. world_super_cache)"
    and om: "option opts K_metrics = Some mc" and oc: "cache_opt opts = Some cc"
    and tr: "''calls'' \<in> set (track (mcfg mc))"
    and fresh: "cache (cache_state w0) = []" "calls (metrics_state w0) = 0"
    and first: "super_matrix ds opts f args w0 = (Inr v, w1)" and v: "v \<noteq> Undefined"
  shows "\<exists>w2. super_matrix ds opts f args w1 = (Inr v, w2)
            \<and> calls (metrics_state w1) = 1 \<and> calls (metrics_state w2) = 1"
proof -
  let ?M = "world_metrics (mcfg mc) perf wall (below_metrics ds opts f)"
  have eq: "super_matrix ds opts f = world_super_cache ?M"
    using super_matrix_cache_metrics[OF om oc sc, of f] m by simp
  from world_cache_twice[OF fresh(1) first[unfolded eq] v] obtain w' w2 where
    a: "?M args w0 = (Inr v, w')" "metrics_state w1 = metrics_state w'"
       "world_super_cache ?M args w1 = (Inr v, w2)" "metrics_state w2 = metrics_state w1"
    by blast
  from world_metrics_calls[OF a(1)] tr fresh(2) have "calls (metrics_state w') = 1" by simp
  then show ?thesis using a eq by simp
qed

lemmas matrix_eval = super_matrix_def decoratorOrder_def apply_entry_def apply_cache_def
  plain_decorators_def cache_and_metrics_def world_super_cache_def world_metrics_def
  wrappedMethod_def updateMetrics_def cachedMethod_def world_new_def super_cache_new_def
  super_cache_size_def UniversalLRU_new_def UniversalLRU_get_def UniversalLRU_set_def
  Map_has_def Map_get_def Map_size_def Map_delete_def metricsData_new_def
  metrics_config_default_def index_def Let_def show_int_def digits.simps

text \<open>
  Claim C2, as stated, has every composed function with \<^verbatim>\<open>cache\<close> and \<^verbatim>\<open>metrics\<close> record
  one invocation for two calls with the same arguments. For a base function that returns
  \<^verbatim>\<open>undefined\<close> the cache layer takes the cached result for a miss, the second call goes
  through the metrics layer again, and the accumulator records two calls.
\<close>

theorem cache_over_metrics_undefined_twice:
  "calls (metrics_state (snd (super_matrix plain_decorators cache_and_metrics returns_undefined
      [Num 16]
      (snd (super_matrix plain_decorators cache_and_metrics returns_undefined [Num 16]
         (world_new (Some ''fast'') None ())))))) = 2"
  by (simp add: matrix_eval returns_undefined_def)

text \<open>
  Claim C2, amended. First, the order: whatever the decorators do, \<open>super_matrix\<close> applies
  those that are configured in the order validate, rate-limit, protect, var-guard,
  time-limit, async-retry, repeat, throttle, debounce, immutable, inherit-from, log,
  metrics, and the cache decorator last, so outermost. Second, the consequence: let
  \<^verbatim>\<open>metrics\<close> (counting calls) and \<^verbatim>\<open>cache\<close> both be configured, whatever else is, and let
  the first call of the newly composed function return a value other than
  \<^verbatim>\<open>undefined\<close>. Then the second call with the same arguments returns the same value and
  the accumulator holds one call, after the first call and after the second.
\<close>

theorem super_matrix_order_cache_over_metrics:
  "super_matrix ds opts f =
     apply_cache ds opts
      (apply_entry opts
        (apply_entry opts
          (apply_entry opts
            (apply_entry opts
              (apply_entry opts
                (apply_entry opts
                  (apply_entry opts
                    (apply_entry opts
                      (apply_entry opts
                        (apply_entry opts
                          (apply_entry opts
                            (apply_entry opts
                              (apply_entry opts f (K_validate, validate ds))
                              (K_rateLimit, rate_limit ds))
                            (K_protect, protect ds))
                          (K_varGuard, var_guard ds))
                        (K_timeLimit, time_limit ds))
                      (K_asyncRetry, async_retry ds))
                    (K_repeat, repeat ds))
                  (K_throttle, throttle ds))
                (K_debounce, debounce ds))
              (K_immutable, immutable ds))
            (K_inherit, inheritFrom ds))
          (K_log, logExecution ds))
        (K_metrics, metrics ds))
   \<and> (metrics ms = (\<lambda>c. world_metrics (mcfg c) perf wall)
        \<and> super_cache ms = (\<lambda>t m. world_super_cache)
        \<and> option mopts K_metrics = Some mc \<and> cache_opt mopts = Some cc
        \<and> ''calls'' \<in> set (track (mcfg mc))
        \<and> cache (cache_state w0) = [] \<and> calls (metrics_state w0) = 0
        \<and> super_matrix ms mopts g args w0 = (Inr v, w1) \<and> v \<noteq> Undefined
      \<longrightarrow> (\<exists>w2. super_matrix ms mopts g args w1 = (Inr v, w2)
            \<and> calls (metrics_state w1) = 1 \<and> calls (metrics_state w2) = 1))"
proof (intro conjI impI)
  show "super_matrix ds opts f =
     apply_cache ds opts
      (apply_entry opts
        (apply_entry opts
          (apply_entry opts
            (apply_entry opts
              (apply_entry opts
                (apply_entry opts
                  (apply_entry opts
                    (apply_entry opts
                      (apply_entry opts
                        (apply_entry opts
                          (apply_entry opts
                            (apply_entry opts
                              (apply_entry opts f (K_validate, validate ds))
                              (K_rateLimit, rate_limit ds))
                            (K_protect, protect ds))
                          (K_varGuard, var_guard ds))
                        (K_timeLimit, time_limit ds))
                      (K_asyncRetry, async_retry ds))
                    (K_repeat, repeat ds))
                  (K_throttle, throttle ds))
                (K_debounce, debounce ds))
              (K_immutable, immutable ds))
            (K_inherit, inheritFrom ds))
          (K_log, logExecution ds))
        (K_metrics, metrics ds))"
    by (simp add: super_matrix_def decoratorOrder_def)
next
  assume h: "metrics ms = (\<lambda>c. world_metrics (mcfg c) perf wall)
        \<and> super_cache ms = (\<lambda>t m. world_super_cache)
        \<and> option mopts K_metrics = Some mc \<and> cache_opt mopts = Some cc
        \<and> ''calls'' \<in> set (track (mcfg mc))
        \<and> cache (cache_state w0) = [] \<and> calls (metrics_state w0) = 0
        \<and> super_matrix ms mopts g args w0 = (Inr v, w1) \<and> v \<noteq> Undefined"
  then show "\<exists>w2. super_matrix ms mopts g args w1 = (Inr v, w2)
            \<and> calls (metrics_state w1) = 1 \<and> calls (metrics_state w2) = 1"
    using cache_metrics_once [of ms mcfg perf wall mopts mc cc w0 g args v w1] by blast
qed

theorem super_matrix_order_cache_over_metrics_witness:
  "metrics plain_decorators = (\<lambda>c. world_metrics c (\<lambda>w. 0) (\<lambda>w. 0))
   \<and> super_cache plain_decorators = (\<lambda>t m. world_super_cache)
   \<and> option cache_and_metrics K_metrics = Some metrics_config_default
   \<and> cache_opt cache_and_metrics = Some (CacheType ''fast'')
   \<and> ''calls'' \<in> set (track metrics_config_default)
   \<and> cache (cache_state (world_new (Some ''fast'') None ())) = []
   \<and> calls (metrics_state (world_new (Some ''fast'') None ())) = 0
   \<and> super_matrix plain_decorators cache_and_metrics returns_260 [Num 16]
         (world_new (Some ''fast'') None ()) =
       (Inr (Num 260),
        \<lparr>cache_state = \<lparr>maxSize = 256, cache = [(''16'', Num 260)], hits = 0, misses = 1\<rparr>,
         metrics_state = \<lparr>calls = 1, errors = 0, totalDuration = 0, lastCalled = Some 0,
                           durations = [0]\<rparr>,
         inner_state = ()\<rparr>)
   \<and> Num 260 \<noteq> Undefined
   \<and> (\<exists>w2. super_matrix plain_decorators cache_and_metrics returns_260 [Num 16]
         \<lparr>cache_state = \<lparr>maxSize = 256, cache = [(''16'', Num 260)], hits = 0, misses = 1\<rparr>,
          metrics_state = \<lparr>calls = 1, errors = 0, totalDuration = 0, lastCalled = Some 0,
                            durations = [0]\<rparr>,
          inner_state = ()\<rparr> = (Inr (Num 260), w2)
        \<and> calls (metrics_state w2) = 1)"
proof -
  let ?w0 = "world_new (Some ''fast'') None ()"
  let ?w1 = "\<lparr>cache_state = \<lparr>maxSize = 256, cache = [(''16'', Num 260)], hits = 0, misses = 1\<rparr>,
         metrics_state = \<lparr>calls = 1, errors = 0, totalDuration = 0, lastCalled = Some 0,
                           durations = [0]\<rparr>,
         inner_state = ()\<rparr>"
  have h1: "metrics plain_decorators = (\<lambda>c. world_metrics ((\<lambda>c. c) c) (\<lambda>w. 0) (\<lambda>w. 0))"
    and h2: "super_cache plain_decorators = (\<lambda>t m. world_super_cache)"
    by (simp_all add: plain_decorators_def)
  have h3: "option cache_and_metrics K_metrics = Some metrics_config_default"
    and h4: "cache_opt cache_and_metrics = Some (CacheType ''fast'')"
    by (simp_all add: cache_and_metrics_def)
  have h5: "''calls'' \<in> set (track ((\<lambda>c. c) metrics_config_default))"
    by (simp add: metrics_config_default_def)
  have h6: "cache (cache_state ?w0) = []" and h7: "calls (metrics_state ?w0) = 0"
    by (simp_all add: world_new_def super_cache_new_def UniversalLRU_new_def metricsData_new_def)
  have h8: "super_matrix plain_decorators cache_and_metrics returns_260 [Num 16] ?w0
      = (Inr (Num 260), ?w1)"
    by (simp add: matrix_eval returns_260_def)
  have h9: "Num 260 \<noteq> Undefined" by simp
  from super_matrix_order_cache_over_metrics
    [of plain_decorators cache_and_metrics returns_260 plain_decorators "\<lambda>c. c" "\<lambda>w. 0" "\<lambda>w. 0" cache_and_metrics
        metrics_config_default "CacheType ''fast''" ?w0 returns_260 "[Num 16]" "Num 260" ?w1]
    h1 h2 h3 h4 h5 h6 h7 h8 h9
  have "\<exists>w2. super_matrix plain_decorators cache_and_metrics returns_260 [Num 16] ?w1
           = (Inr (Num 260), w2) \<and> calls (metrics_state w2) = 1"
    by blast
  then show ?thesis using h1 h2 h3 h4 h5 h6 h7 h8 by simp
qed

end
